theory Spec2Isabelle
  imports Complex_Main "HOL-Library.Word"
begin

section \<open>Errors raised by the generation transport\<close>

text \<open>
  \<^verbatim>\<open>GPTGenerationErrorType\<close> is declared in \<^verbatim>\<open>error/gpt/generation.js\<close>; the members
  below are the ones \<^verbatim>\<open>conversation.ts\<close> and the summarize command refer to.
\<close>

datatype GPTGenerationErrorType = Busy | SessionUnusable | Empty | Length | Other

text \<open>
  A thrown JavaScript value, as far as \<^verbatim>\<open>Conversation.generate\<close> inspects it:
  \<^item> \<open>GPTAPIError id server\<close>: \<^verbatim>\<open>error.options.data.id\<close> and the result of
    \<^verbatim>\<open>error.isServerSide()\<close>;
  \<^item> \<open>GPTGenerationError type cause\<close>: \<^verbatim>\<open>error.options.data.type\<close> and
    \<^verbatim>\<open>error.options.data.cause\<close> (\<open>None\<close> when it is absent);
  \<^item> \<open>TypeError msg\<close>;
  \<^item> \<open>Error msg\<close>: any other thrown value.
\<close>

datatype js_error =
    GPTAPIError string bool
  | GPTGenerationError GPTGenerationErrorType "js_error option"
  | TypeError string
  | Error string

fun is_GPTAPIError :: "js_error \<Rightarrow> bool" where
  "is_GPTAPIError (GPTAPIError i s) = True"
| "is_GPTAPIError e = False"

fun is_GPTGenerationError :: "js_error \<Rightarrow> bool" where
  "is_GPTGenerationError (GPTGenerationError t c) = True"
| "is_GPTGenerationError e = False"

section \<open>Messages, interactions and the conversation\<close>

text \<open>
  \<^verbatim>\<open>ChatDocument\<close>, \<^verbatim>\<open>ChatInputImage\<close>, the Discord \<^verbatim>\<open>Message\<close> and
  \<^verbatim>\<open>ModerationResult\<close> are declared outside the files at hand and are only passed
  along by the conversation; they are opaque payloads here.
\<close>

type_synonym ChatDocument = string
type_synonym ChatInputImage = string
type_synonym Message = string
type_synonym ModerationResult = string

record ChatInput =
  content :: string
  documents :: "ChatDocument list option"
  images :: "ChatInputImage list option"

text \<open>
  \<^verbatim>\<open>MessageType\<close> is declared in \<^verbatim>\<open>chat/types/message.js\<close>; \<^verbatim>\<open>Notice\<close> is the member the
  conversation names, \<open>Chat\<close> stands for the type of a generated response.
\<close>

datatype MessageType = Notice | Chat

text \<open>
  An image of a response: \<open>data\<close> is a binary buffer in memory (\<^verbatim>\<open>ImageBuffer\<close>) and a
  string in the database; \<open>image_rest\<close> stands for the fields the spread \<^verbatim>\<open>...i\<close> copies.
\<close>

record 'd ChatImage =
  image_rest :: string
  data :: 'd

text \<open>
  \<^verbatim>\<open>ResponseMessage\<close> (\<open>'d\<close> a buffer) and \<^verbatim>\<open>DatabaseResponseMessage\<close> (\<open>'d\<close> a
  string), with the fields the sources read: \<^verbatim>\<open>id\<close>, \<^verbatim>\<open>raw\<close>, \<^verbatim>\<open>type\<close>,
  \<^verbatim>\<open>text\<close> and the optional \<^verbatim>\<open>images\<close>.
\<close>

record 'd ResponseMessage =
  msg_id :: string
  raw :: "string option"
  msg_type :: MessageType
  msg_text :: string
  msg_images :: "'d ChatImage list option"

type_synonym ImageBuffer = "8 word list"

record ChatInteraction =
  i_input :: ChatInput
  i_output :: "ImageBuffer ResponseMessage"
  moderation :: "ModerationResult option"
  trigger :: "Message option"
  reply :: "Message option"
  time :: nat

record ChatGeneratedInteraction = ChatInteraction +
  tries :: nat

record ChatClientResult =
  result_input :: ChatInput
  result_output :: "ImageBuffer ResponseMessage"

text \<open>One entry of the stripped-down history saved in the database.\<close>

record DatabaseEntry =
  db_id :: string
  db_input :: ChatInput
  db_output :: "string ResponseMessage"

text \<open>
  The state of \<^verbatim>\<open>Cooldown\<close> that \<^verbatim>\<open>cooldownMessage\<close> reads:
  \<^verbatim>\<open>state.startedAt\<close> and \<^verbatim>\<open>state.expiresIn\<close>.
\<close>

record CooldownState =
  startedAt :: nat
  expiresIn :: int

text \<open>
  The mutable fields of \<^verbatim>\<open>Conversation\<close>. \<open>timer\<close> is \<open>None\<close> for \<^verbatim>\<open>null\<close> and
  \<open>Some pending\<close> for a timeout handle, \<open>pending\<close> telling whether it can still fire.
  \<open>cooldown_time\<close> is \<^verbatim>\<open>this.cooldown.options.time\<close>.
\<close>

record Conversation =
  user_id :: string
  active :: bool
  generating :: bool
  history :: "ChatInteraction list"
  updatedAt :: "nat option"
  ttl :: nat
  timer :: "bool option"
  cooldown_time :: real
  cooldown_state :: "CooldownState option"

definition CONVERSATION_ERROR_RETRY_MAX_TRIES :: nat where
  "CONVERSATION_ERROR_RETRY_MAX_TRIES = 10"


section \<open>JavaScript numbers\<close>

text \<open>
  A JavaScript number is a double (IEEE 754 binary64). A finite double is modelled by the
  real it denotes; \<^verbatim>\<open>NaN\<close> and the infinities are not modelled. \<open>double_round x\<close> is the
  double nearest to the real \<open>x\<close>, ties going to the even significand: with
  \<open>2 powi e \<le> \<bar>x\<bar> < 2 powi (e + 1)\<close> the doubles around \<open>x\<close> are the multiples of
  \<open>2 powi (e - 52)\<close>, and of \<open>2 powi (- 1074)\<close> below the normal range. A decimal literal
  denotes the double nearest to it, and the product of two doubles is the double nearest
  to their exact product (\<open>fmul\<close>). A result is a finite double as long as it stays below
  \<open>2 ^ 1024\<close> (\<open>finite_number\<close>); beyond, JavaScript gives \<^verbatim>\<open>Infinity\<close>.
\<close>

definition exponent :: "real \<Rightarrow> int" where
  "exponent x = \<lfloor>log 2 \<bar>x\<bar>\<rfloor>"

definition round_half_even :: "real \<Rightarrow> int" where
  "round_half_even y =
     (if y - of_int \<lfloor>y\<rfloor> < 1 / 2 then \<lfloor>y\<rfloor>
      else if 1 / 2 < y - of_int \<lfloor>y\<rfloor> then \<lfloor>y\<rfloor> + 1
      else if even \<lfloor>y\<rfloor> then \<lfloor>y\<rfloor> else \<lfloor>y\<rfloor> + 1)"

definition double_round :: "real \<Rightarrow> real" where
  "double_round x =
     (if x = 0 then 0
      else of_int (round_half_even (x / 2 powi (max (exponent x) (- 1022) - 52)))
             * 2 powi (max (exponent x) (- 1022) - 52))"

definition fmul :: "real \<Rightarrow> real \<Rightarrow> real" where
  "fmul a b = double_round (a * b)"

definition finite_number :: "real \<Rightarrow> bool" where
  "finite_number x = (\<bar>x\<bar> < 2 ^ 1024)"

section \<open>Settings and the collaborators of the conversation\<close>

datatype SubscriptionType = Free | Voter | GuildPremium | UserPremium

fun CONVERSATION_COOLDOWN_MODIFIER :: "SubscriptionType \<Rightarrow> real" where
  "CONVERSATION_COOLDOWN_MODIFIER Free = 1"
| "CONVERSATION_COOLDOWN_MODIFIER Voter = double_round 0.5"
| "CONVERSATION_COOLDOWN_MODIFIER GuildPremium = double_round 0.15"
| "CONVERSATION_COOLDOWN_MODIFIER UserPremium = double_round 0.09"

definition CONVERSATION_DEFAULT_COOLDOWN :: real where
  "CONVERSATION_DEFAULT_COOLDOWN = 110 * 1000"

text \<open>
  \<^verbatim>\<open>RestrictionType\<close> is declared in \<^verbatim>\<open>db/types/restriction.js\<close>; only its member
  \<^verbatim>\<open>PremiumOnly\<close> is compared against.
\<close>

datatype RestrictionType = PremiumOnly | OtherRestriction string

text \<open>\<^verbatim>\<open>model.options.cooldown\<close>, with its optional numbers \<^verbatim>\<open>time\<close> and \<^verbatim>\<open>multiplier\<close>.\<close>

record ModelCooldown =
  cd_time :: "real option"
  cd_multiplier :: "real option"

record ChatSettingsModel =
  model_id :: string
  model_cooldown :: "ModelCooldown option"
  model_restricted :: "RestrictionType option"

text \<open>
  Every call that leaves the conversation is recorded as an event, in the order the
  calls are made; \<open>HistoryPush\<close> records the mutation of \<^verbatim>\<open>this.history\<close>. The last
  three events are the database calls of \<^verbatim>\<open>init\<close> and \<^verbatim>\<open>reset\<close>.
\<close>

datatype event =
    ClearTimeout
  | SessionGenerate nat
  | LoggerWarn nat js_error
  | OnProgressNotice nat
  | SetTimeoutDelay nat
  | ResetTimerArmed int
  | ModerationCheck string
  | HistoryPush ChatInteraction
  | BroadcastEval string "ChatInteraction list"
  | UpdateConversation "DatabaseEntry list"
  | UpdateInteraction DatabaseEntry string string
  | CooldownUse int
  | FetchUser string
  | CreateConversation string
  | DeleteConversation string

text \<open>
  What the collaborators answer during one call of \<^verbatim>\<open>generate\<close>. The model is of a call
  during which no other method of the conversation runs: an awaited call answers and
  leaves the conversation as it is (a \<^verbatim>\<open>reset()\<close> that runs while \<^verbatim>\<open>generate\<close> awaits is
  outside the model).
  \<^item> \<open>transport n\<close>: the outcome of \<^verbatim>\<open>this.manager.session.generate(options)\<close> when
    \<open>n\<close> attempts have failed before (\<open>Inl\<close> the thrown error);
  \<^item> \<open>now\<close>: what \<^verbatim>\<open>Date.now()\<close> returns at each place that reads the clock after the
    loop: in \<^verbatim>\<open>applyResetTimer\<close> (\<open>AtUpdated\<close>), in \<^verbatim>\<open>getResetTime\<close> (\<open>AtResetTime\<close>), for the
    time of the interaction (\<open>AtResult\<close>) and in \<^verbatim>\<open>Cooldown.use\<close> (\<open>AtCooldown\<close>);
  \<^item> \<open>check_result\<close>: what \<^verbatim>\<open>check(...)\<close> resolves to, or the error it rejects with;
  \<^item> \<open>broadcast_result\<close>, \<open>updateConversation_result\<close>, \<open>updateInteraction_result\<close>:
    \<open>None\<close> when the awaited call resolves, \<open>Some e\<close> when it rejects with \<open>e\<close>;
  \<^item> \<open>dev\<close>: \<^verbatim>\<open>this.manager.bot.dev\<close>; \<open>owner\<close>: \<^verbatim>\<open>config.discord.owner\<close>;
  \<^item> \<open>subscriptionType\<close>: \<^verbatim>\<open>db.users.subscriptionType(options.db)\<close>;
  \<^item> \<open>model\<close>, \<open>tone_id\<close>: \<^verbatim>\<open>this.model(options.db)\<close> and \<^verbatim>\<open>this.tone(options.db).id\<close>;
  \<^item> \<open>buffer_toString\<close>: \<^verbatim>\<open>ImageBuffer.toString()\<close>.
\<close>

datatype clock_read = AtUpdated | AtResetTime | AtResult | AtCooldown

record env =
  transport :: "nat \<Rightarrow> js_error + ChatClientResult"
  now :: "clock_read \<Rightarrow> nat"
  check_result :: "js_error + ModerationResult option"
  broadcast_result :: "js_error option"
  updateConversation_result :: "js_error option"
  updateInteraction_result :: "js_error option"
  dev :: bool
  owner :: "string list"
  subscriptionType :: SubscriptionType
  model :: ChatSettingsModel
  tone_id :: string
  buffer_toString :: "ImageBuffer \<Rightarrow> string"

text \<open>
  The conversation together with the log of events; each event is logged with the value
  \<^verbatim>\<open>this.generating\<close> has when the call is made.
\<close>

record world =
  conv :: Conversation
  events :: "(bool \<times> event) list"

definition emit :: "event \<Rightarrow> world \<Rightarrow> world" where
  "emit ev w = w\<lparr>events := events w @ [(generating (conv w), ev)]\<rparr>"

definition set_generating :: "bool \<Rightarrow> world \<Rightarrow> world" where
  "set_generating b w = w\<lparr>conv := (conv w)\<lparr>generating := b\<rparr>\<rparr>"

section \<open>The retry loop of \<^verbatim>\<open>Conversation.generate\<close>\<close>

text \<open>The four conditions of the \<^verbatim>\<open>if\<close> chain in the \<^verbatim>\<open>catch\<close> block, in its order.\<close>

fun session_unusable :: "js_error \<Rightarrow> bool" where
  "session_unusable (GPTAPIError i s) = (i = ''insufficient_quota'' \<or> i = ''access_terminated'')"
| "session_unusable (GPTGenerationError t c) = (t = SessionUnusable)"
| "session_unusable e = False"

fun rate_limited :: "js_error \<Rightarrow> bool" where
  "rate_limited (GPTAPIError i s) = (i = ''requests'' \<or> i = ''invalid_request_error'')"
| "rate_limited (TypeError m) = True"
| "rate_limited e = False"

fun throw_through :: "js_error \<Rightarrow> bool" where
  "throw_through (GPTGenerationError t (Some c)) = (\<not> is_GPTAPIError c)"
| "throw_through (GPTAPIError i s) = (\<not> s)"
| "throw_through e = False"

fun empty_or_length :: "js_error \<Rightarrow> bool" where
  "empty_or_length (GPTGenerationError t c) = (t = Empty \<or> t = Length)"
| "empty_or_length e = False"

datatype step = Throw js_error | Retry

text \<open>
  The \<^verbatim>\<open>catch\<close> block for \<open>n\<close>, the value of \<^verbatim>\<open>tries\<close> after its increment:
  either it throws, or control reaches the loop condition.
\<close>

definition on_error :: "nat \<Rightarrow> js_error \<Rightarrow> world \<Rightarrow> step \<times> world" where
  "on_error n error w =
     (if n = CONVERSATION_ERROR_RETRY_MAX_TRIES then
        (Throw (if is_GPTGenerationError error \<or> is_GPTAPIError error then error
                else GPTGenerationError Other (Some error)),
         set_generating False w)
      else
        let w' = emit (OnProgressNotice n) (emit (LoggerWarn n error) w) in
        if session_unusable error then
          (Throw (GPTGenerationError SessionUnusable None), w')
        else if rate_limited error then
          (Retry, emit (SetTimeoutDelay ((n * 5 + 5) * 1000)) w')
        else if throw_through error then
          (Throw error, set_generating False w')
        else if empty_or_length error then
          (Throw error, set_generating False w')
        else (Retry, w'))"

datatype loop_outcome = Thrown js_error | Exited "ChatClientResult option" nat

text \<open>
  The \<^verbatim>\<open>do ... while\<close> loop, entered with \<open>n\<close> failures so far (the value of \<^verbatim>\<open>tries\<close>).
  \<open>Exited data n\<close> is the normal exit of the loop with the values of \<^verbatim>\<open>data\<close> and \<^verbatim>\<open>tries\<close>.
  The awaited transport call and the wait leave the conversation as it is, so that in a
  call that starts with the flag set the test of \<^verbatim>\<open>this.generating\<close> in the loop condition
  holds whenever it is reached.
\<close>

function generate_loop :: "env \<Rightarrow> nat \<Rightarrow> world \<Rightarrow> loop_outcome \<times> world" where
  "generate_loop E n w =
     (case transport E n of
        Inr d \<Rightarrow> (Exited (Some d) n, emit (SessionGenerate n) w)
      | Inl error \<Rightarrow>
          (case on_error (Suc n) error (emit (SessionGenerate n) w) of
             (Throw e, w') \<Rightarrow> (Thrown e, w')
           | (Retry, w') \<Rightarrow>
               if Suc n < CONVERSATION_ERROR_RETRY_MAX_TRIES \<and> generating (conv w')
               then generate_loop E (Suc n) w'
               else (Exited None (Suc n), w')))"
  by pat_completeness auto
termination
  by (relation "measure (\<lambda>(E, n, w). CONVERSATION_ERROR_RETRY_MAX_TRIES - n)") auto

declare generate_loop.simps [simp del]

section \<open>History, persistence and the cool-down\<close>

text \<open>
  \<^verbatim>\<open>getResetTime(relative)\<close>, with \<open>t\<close> what \<^verbatim>\<open>Date.now()\<close> returns when it is read there.
\<close>

definition getResetTime :: "Conversation \<Rightarrow> nat \<Rightarrow> bool \<Rightarrow> int" where
  "getResetTime c t relative =
     (let timeToReset = int (case updatedAt c of None \<Rightarrow> t | Some u \<Rightarrow> u) + int (ttl c)
      in max (if relative then timeToReset - int t else timeToReset) 0)"

text \<open>
  \<^verbatim>\<open>applyResetTimer()\<close>: \<open>t\<close> is the clock as read for \<^verbatim>\<open>updatedAt\<close>, \<open>t'\<close> the clock as read
  afterwards in \<^verbatim>\<open>getResetTime(true)\<close>, so that the timer is armed for the idle lifetime less
  the time elapsed between the two readings.
\<close>

definition applyResetTimer :: "nat \<Rightarrow> nat \<Rightarrow> world \<Rightarrow> world" where
  "applyResetTimer t t' w =
     (let w1 = (if timer (conv w) \<noteq> None
                then (emit ClearTimeout w)\<lparr>conv := (conv w)\<lparr>timer := None\<rparr>\<rparr> else w);
          c = (conv w1)\<lparr>updatedAt := Some t\<rparr>
      in emit (ResetTimerArmed (getResetTime c t' True)) (w1\<lparr>conv := c\<lparr>timer := Some True\<rparr>\<rparr>))"

definition responseMessageToDatabase ::
    "('d \<Rightarrow> string) \<Rightarrow> 'd ResponseMessage \<Rightarrow> string ResponseMessage" where
  "responseMessageToDatabase toStr message =
     \<lparr>msg_id = msg_id message, raw = raw message, msg_type = msg_type message,
      msg_text = msg_text message,
      msg_images = (case msg_images message of
                      Some imgs \<Rightarrow> Some (map (\<lambda>i. \<lparr>image_rest = image_rest i, data = toStr (data i)\<rparr>) imgs)
                    | None \<Rightarrow> None)\<rparr>"

definition databaseToResponseMessage ::
    "(string \<Rightarrow> 'd) \<Rightarrow> string ResponseMessage \<Rightarrow> 'd ResponseMessage" where
  "databaseToResponseMessage load message =
     \<lparr>msg_id = msg_id message, raw = raw message, msg_type = msg_type message,
      msg_text = msg_text message,
      msg_images = (case msg_images message of
                      Some imgs \<Rightarrow> Some (map (\<lambda>i. \<lparr>image_rest = image_rest i, data = load (data i)\<rparr>) imgs)
                    | None \<Rightarrow> None)\<rparr>"

text \<open>The stripped-down history that \<^verbatim>\<open>generate\<close> hands to \<^verbatim>\<open>updateConversation\<close>.\<close>

definition stripped_history :: "(ImageBuffer \<Rightarrow> string) \<Rightarrow> ChatInteraction list \<Rightarrow> DatabaseEntry list" where
  "stripped_history toStr h =
     map (\<lambda>entry. \<lparr>db_id = msg_id (i_output entry), db_input = i_input entry,
                   db_output = responseMessageToDatabase toStr (i_output entry)\<rparr>) h"

text \<open>
  The loop of \<^verbatim>\<open>loadFromDatabase\<close> over \<^verbatim>\<open>data.history\<close>, pushing one interaction per
  saved entry; \<open>t\<close> is \<^verbatim>\<open>Date.now()\<close>.
\<close>

definition loadFromDatabase_entries ::
    "(string \<Rightarrow> ImageBuffer) \<Rightarrow> nat \<Rightarrow> DatabaseEntry list \<Rightarrow> ChatInteraction list" where
  "loadFromDatabase_entries load t entries =
     map (\<lambda>entry. \<lparr>i_input = db_input entry,
                   i_output = databaseToResponseMessage load (db_output entry),
                   moderation = None, trigger = None, reply = None, time = t\<rparr>) entries"

text \<open>
  \<^verbatim>\<open>pushToHistory(entry?)\<close>: the entry, when given, is pushed to the local history; then
  the history is broadcast with \<^verbatim>\<open>trigger\<close> and \<^verbatim>\<open>reply\<close> set to \<^verbatim>\<open>null\<close> in a copy of
  each entry. The result is \<open>Some e\<close> when the broadcast rejects with \<open>e\<close>.
\<close>

definition broadcast_payload :: "ChatInteraction list \<Rightarrow> ChatInteraction list" where
  "broadcast_payload h = map (\<lambda>e. e\<lparr>trigger := None, reply := None\<rparr>) h"

definition pushToHistory :: "env \<Rightarrow> ChatInteraction option \<Rightarrow> world \<Rightarrow> js_error option \<times> world" where
  "pushToHistory E entry w =
     (let w1 = (case entry of
                  Some e \<Rightarrow> emit (HistoryPush e) (w\<lparr>conv := (conv w)\<lparr>history := history (conv w) @ [e]\<rparr>\<rparr>)
                | None \<Rightarrow> w)
      in (broadcast_result E,
          emit (BroadcastEval (user_id (conv w1)) (broadcast_payload (history (conv w1)))) w1))"

text \<open>The test \<^verbatim>\<open>cooldown && cooldown.time && restricted === PremiumOnly\<close>.\<close>

definition override_applies :: "ChatSettingsModel \<Rightarrow> bool" where
  "override_applies m =
     ((case model_cooldown m of
         Some cd \<Rightarrow> (case cd_time cd of Some t \<Rightarrow> t \<noteq> 0 | None \<Rightarrow> False)
       | None \<Rightarrow> False)
      \<and> model_restricted m = Some PremiumOnly)"

text \<open>
  \<^verbatim>\<open>cooldownTime(db, model)\<close>, with \<open>sub\<close> the subscription type of \<^verbatim>\<open>db\<close>; the three
  constants of its body come first. The two multiplications are those of doubles, from
  left to right; \<^verbatim>\<open>Math.round\<close> gives the nearest integer, halves going up, as
  \<^const>\<open>round\<close> does.
\<close>

definition baseModifier :: "SubscriptionType \<Rightarrow> ChatSettingsModel \<Rightarrow> real" where
  "baseModifier sub m = (if override_applies m then 1 else CONVERSATION_COOLDOWN_MODIFIER sub)"

definition toneModifier :: "ChatSettingsModel \<Rightarrow> real" where
  "toneModifier m =
     (case model_cooldown m of
        Some cd \<Rightarrow> (case cd_multiplier cd of Some x \<Rightarrow> if x \<noteq> 0 then x else 1 | None \<Rightarrow> 1)
      | None \<Rightarrow> 1)"

definition baseDuration :: "Conversation \<Rightarrow> ChatSettingsModel \<Rightarrow> real" where
  "baseDuration c m =
     (if override_applies m
      then (case model_cooldown m of
              Some cd \<Rightarrow> (case cd_time cd of Some t \<Rightarrow> t | None \<Rightarrow> 0)
            | None \<Rightarrow> 0)
      else cooldown_time c)"

definition cooldownTime :: "Conversation \<Rightarrow> SubscriptionType \<Rightarrow> ChatSettingsModel \<Rightarrow> int" where
  "cooldownTime c sub m =
     (let finalDuration = fmul (fmul (baseDuration c m) (baseModifier sub m)) (toneModifier m)
      in round finalDuration)"

text \<open>Neither of the two products of \<^verbatim>\<open>cooldownTime\<close> overflows.\<close>

definition cooldown_finite :: "Conversation \<Rightarrow> SubscriptionType \<Rightarrow> ChatSettingsModel \<Rightarrow> bool" where
  "cooldown_finite c sub m =
     (finite_number (fmul (baseDuration c m) (baseModifier sub m))
      \<and> finite_number (fmul (fmul (baseDuration c m) (baseModifier sub m)) (toneModifier m)))"

text \<open>
  Modelled from the spec: \<^verbatim>\<open>Cooldown.use\<close> (\<^verbatim>\<open>conversation/utils/cooldown.js\<close> is not
  among the sources); it arms the window, recording the start and the duration.
\<close>

definition cooldown_use :: "nat \<Rightarrow> int \<Rightarrow> world \<Rightarrow> world" where
  "cooldown_use t d w =
     emit (CooldownUse d) (w\<lparr>conv := (conv w)\<lparr>cooldown_state := Some \<lparr>startedAt = t, expiresIn = d\<rparr>\<rparr>\<rparr>)"

section \<open>\<^verbatim>\<open>Conversation.generate\<close>\<close>

record GeneratorOptions =
  opt_trigger :: Message

text \<open>
  The part of \<^verbatim>\<open>generate\<close> after the loop, with \<open>d\<close> and \<open>n\<close> the values of \<^verbatim>\<open>data\<close> and
  \<^verbatim>\<open>tries\<close>. The time stamps of the audit entry are left out.
\<close>

definition after_loop ::
    "env \<Rightarrow> GeneratorOptions \<Rightarrow> ChatClientResult option \<Rightarrow> nat \<Rightarrow> world
       \<Rightarrow> (js_error + ChatGeneratedInteraction) \<times> world" where
  "after_loop E options d n w =
     (let w1 = applyResetTimer (now E AtUpdated) (now E AtResetTime) (set_generating False w) in
      case d of
        None \<Rightarrow> (Inl (Error ''What.''), w1)
      | Some r \<Rightarrow>
          let w2 = emit (ModerationCheck (msg_text (result_output r))) w1 in
          (case check_result E of
             Inl e \<Rightarrow> (Inl e, w2)
           | Inr m \<Rightarrow>
               let result = \<lparr>i_input = result_input r, i_output = result_output r,
                             moderation = m, trigger = Some (opt_trigger options),
                             reply = None, time = now E AtResult\<rparr> in
               (case pushToHistory E (Some result) w2 of
                  (Some e, w3) \<Rightarrow> (Inl e, w3)
                | (None, w3) \<Rightarrow>
                    let w4 = emit (UpdateConversation
                                     (stripped_history (buffer_toString E) (history (conv w3)))) w3 in
                    (case updateConversation_result E of
                       Some e \<Rightarrow> (Inl e, w4)
                     | None \<Rightarrow>
                         let w5 = (if \<not> dev E
                                   then emit (UpdateInteraction
                                                \<lparr>db_id = msg_id (i_output result),
                                                 db_input = i_input result,
                                                 db_output = responseMessageToDatabase
                                                               (buffer_toString E) (i_output result)\<rparr>
                                                (model_id (model E)) (tone_id E)) w4
                                   else w4) in
                         (case (if \<not> dev E then updateInteraction_result E else None) of
                            Some e \<Rightarrow> (Inl e, w5)
                          | None \<Rightarrow>
                              let cooldown = cooldownTime (conv w5) (subscriptionType E) (model E);
                                  w6 = (if user_id (conv w5) \<notin> set (owner E)
                                        then cooldown_use (now E AtCooldown) cooldown w5 else w5)
                              in (Inr \<lparr>i_input = i_input result, i_output = i_output result,
                                       moderation = moderation result, trigger = trigger result,
                                       reply = reply result, time = time result, tries = n\<rparr>,
                                  w6))))))"

definition generate ::
    "env \<Rightarrow> GeneratorOptions \<Rightarrow> world \<Rightarrow> (js_error + ChatGeneratedInteraction) \<times> world" where
  "generate E options w =
     (if \<not> active (conv w) then (Inl (Error ''Conversation is inactive''), w)
      else if generating (conv w) then (Inl (GPTGenerationError Busy None), w)
      else
        let w1 = set_generating True w;
            w2 = (if timer (conv w1) \<noteq> None
                  then (emit ClearTimeout w1)\<lparr>conv := (conv w1)\<lparr>timer := Some False\<rparr>\<rparr>
                  else w1)
        in case generate_loop E 0 w2 of
             (Thrown e, w3) \<Rightarrow> (Inl e, w3)
           | (Exited d n, w3) \<Rightarrow> after_loop E options d n w3)"

text \<open>
  The errors after which the \<^verbatim>\<open>catch\<close> block reaches the loop condition: those of the
  second branch of the chain, and those no branch takes.
\<close>

definition retried :: "js_error \<Rightarrow> bool" where
  "retried e =
     (\<not> session_unusable e \<and> (rate_limited e \<or> (\<not> throw_through e \<and> \<not> empty_or_length e)))"

text \<open>The state in which \<^verbatim>\<open>generate\<close> enters the loop on an active conversation that is
  not generating: the flag is set and a pending timer is cancelled.\<close>

definition loop_entry :: "world \<Rightarrow> world" where
  "loop_entry w =
     (if timer (conv (set_generating True w)) \<noteq> None
      then (emit ClearTimeout (set_generating True w))
             \<lparr>conv := (conv (set_generating True w))\<lparr>timer := Some False\<rparr>\<rparr>
      else set_generating True w)"

text \<open>
  The call reaches the branch of lines 332 to 336, which throws \<open>SessionUnusable\<close>: one of
  the attempts 1 to 9 fails with a session-unusable error, every attempt before it having
  failed with an error that is retried.
\<close>

definition failed_with :: "(js_error \<Rightarrow> bool) \<Rightarrow> env \<Rightarrow> nat \<Rightarrow> bool" where
  "failed_with P E n = (case transport E n of Inl e \<Rightarrow> P e | Inr d \<Rightarrow> False)"

definition takes_unusable_branch :: "env \<Rightarrow> bool" where
  "takes_unusable_branch E =
     list_ex (\<lambda>n. failed_with session_unusable E n \<and> list_all (failed_with retried E) [0..<n])
       [0..<9]"

section \<open>\<^verbatim>\<open>init\<close>, \<^verbatim>\<open>reset\<close> and the states of a conversation\<close>

text \<open>
  \<^verbatim>\<open>init()\<close>: \<open>fetched\<close> and \<open>created\<close> tell whether the awaited \<^verbatim>\<open>fetchUser\<close> and
  \<^verbatim>\<open>updateConversation\<close> resolve (\<open>None\<close>) or reject; \<open>t\<close> and \<open>t'\<close> are the two readings of the
  clock in \<^verbatim>\<open>applyResetTimer\<close>.
\<close>

definition init ::
    "js_error option \<Rightarrow> js_error option \<Rightarrow> nat \<Rightarrow> nat \<Rightarrow> world \<Rightarrow> js_error option \<times> world" where
  "init fetched created t t' w =
     (let w1 = emit (FetchUser (user_id (conv w))) w in
      case fetched of
        Some e \<Rightarrow> (Some e, w1)
      | None \<Rightarrow>
          let w2 = (if history (conv w1) = []
                    then emit (CreateConversation (user_id (conv w1))) w1 else w1) in
          (case (if history (conv w1) = [] then created else None) of
             Some e \<Rightarrow> (Some e, w2)
           | None \<Rightarrow>
               let w3 = applyResetTimer t t' w2
               in (None, w3\<lparr>conv := (conv w3)\<lparr>active := True\<rparr>\<rparr>)))"

text \<open>
  \<^verbatim>\<open>reset(remove)\<close>: \<open>answered\<close> tells whether the awaited database call resolves; only then
  are \<^verbatim>\<open>active\<close> and \<^verbatim>\<open>generating\<close> assigned, one after the other with no call in between.
\<close>

definition reset ::
    "bool \<Rightarrow> js_error option \<Rightarrow> nat \<Rightarrow> nat \<Rightarrow> world \<Rightarrow> js_error option \<times> world" where
  "reset remove answered t t' w =
     (let w1 = applyResetTimer t t' w;
          w2 = w1\<lparr>conv := (conv w1)\<lparr>history := []\<rparr>\<rparr>;
          w3 = emit (if remove then DeleteConversation (user_id (conv w2))
                     else UpdateConversation []) w2
      in case answered of
           Some e \<Rightarrow> (Some e, w3)
         | None \<Rightarrow> (None, w3\<lparr>conv := (conv w3)\<lparr>active := \<not> remove, generating := False\<rparr>\<rparr>))"

text \<open>
  The assignments the class makes to the fields of a conversation, each done between two
  awaited calls and so in one step:
  \<^item> \<open>Lock\<close>: lines 282 to 286 of \<^verbatim>\<open>generate\<close>, which set \<^verbatim>\<open>generating\<close> only when the
    conversation is active and not generating;
  \<^item> \<open>Unlock\<close>: lines 311, 349, 355 and 363 of \<^verbatim>\<open>generate\<close>;
  \<^item> \<open>Activate\<close>: line 228 of \<^verbatim>\<open>init\<close>;
  \<^item> \<open>Reset remove\<close>: lines 271 and 272 of \<^verbatim>\<open>reset\<close>;
  \<^item> the others: any assignment to \<^verbatim>\<open>history\<close>, \<^verbatim>\<open>updatedAt\<close>, \<^verbatim>\<open>timer\<close> and the state of
    the cool-down.
  No other line assigns \<^verbatim>\<open>active\<close> or \<^verbatim>\<open>generating\<close>. \<open>run acts c\<close> makes the assignments
  \<open>acts\<close> in turn, whatever methods they come from and however the methods interleave.
\<close>

datatype action =
    Lock
  | Unlock
  | Activate
  | Reset bool
  | SetHistory "ChatInteraction list"
  | SetUpdatedAt "nat option"
  | SetTimer "bool option"
  | SetCooldown "CooldownState option"

fun act :: "action \<Rightarrow> Conversation \<Rightarrow> Conversation" where
  "act Lock c = (if active c \<and> \<not> generating c then c\<lparr>generating := True\<rparr> else c)"
| "act Unlock c = c\<lparr>generating := False\<rparr>"
| "act Activate c = c\<lparr>active := True\<rparr>"
| "act (Reset remove) c = c\<lparr>active := \<not> remove, generating := False\<rparr>"
| "act (SetHistory h) c = c\<lparr>history := h\<rparr>"
| "act (SetUpdatedAt u) c = c\<lparr>updatedAt := u\<rparr>"
| "act (SetTimer t) c = c\<lparr>timer := t\<rparr>"
| "act (SetCooldown s) c = c\<lparr>cooldown_state := s\<rparr>"

definition run :: "action list \<Rightarrow> Conversation \<Rightarrow> Conversation" where
  "run acts c = fold act acts c"

text \<open>The events of the retry loop: the attempt, the warning, the notice and the wait.\<close>

fun is_loop_event :: "event \<Rightarrow> bool" where
  "is_loop_event (SessionGenerate n) = True"
| "is_loop_event (LoggerWarn n e) = True"
| "is_loop_event (OnProgressNotice n) = True"
| "is_loop_event (SetTimeoutDelay ms) = True"
| "is_loop_event ev = False"

text \<open>The events a call has added to the log.\<close>

definition new_events :: "world \<Rightarrow> world \<Rightarrow> (bool \<times> event) list" where
  "new_events w w' = drop (length (events w)) (events w')"

text \<open>
  \<open>extends P w w'\<close>: the log of \<open>w'\<close> is the log of \<open>w\<close> followed by new events that all
  satisfy \<open>P\<close>.
\<close>

definition extends :: "(bool \<times> event \<Rightarrow> bool) \<Rightarrow> world \<Rightarrow> world \<Rightarrow> bool" where
  "extends P w w' =
     (length (events w) \<le> length (events w') \<and> take (length (events w)) (events w') = events w
      \<and> list_all P (new_events w w'))"

fun is_CooldownUse :: "event \<Rightarrow> bool" where
  "is_CooldownUse (CooldownUse d) = True"
| "is_CooldownUse ev = False"

text \<open>\<^verbatim>\<open>model.options.cooldown?.time\<close>, the duration a model configures for itself.\<close>

definition override_time :: "ChatSettingsModel \<Rightarrow> real option" where
  "override_time m = (case model_cooldown m of Some cd \<Rightarrow> cd_time cd | None \<Rightarrow> None)"

section \<open>The prompt of the summarize command\<close>

record YouTubeSubtitle =
  sub_content :: string
  sub_start :: nat

record YouTubeVideo =
  video_title :: string
  video_author :: string
  video_description :: string

record SummaryType =
  type_name :: string
  type_prompt :: string

record OpenAIChatMessage =
  chat_content :: string
  role :: string

record SummaryPrompt =
  messages :: "OpenAIChatMessage list"
  tokens :: nat

text \<open>\<^verbatim>\<open>Array.prototype.join\<close> on strings.\<close>

fun join :: "string \<Rightarrow> string list \<Rightarrow> string" where
  "join sep [] = []"
| "join sep [x] = x"
| "join sep (x # y # ys) = x @ sep @ join sep (y # ys)"

text \<open>
  What \<^verbatim>\<open>buildSummarizerPrompt\<close> takes from outside the file: \<open>countTokens\<close> is
  \<^verbatim>\<open>countChatMessageTokens\<close>, \<open>utils_truncate\<close> is \<^verbatim>\<open>Utils.truncate\<close> and \<open>targetLanguage\<close> is
  \<^verbatim>\<open>LanguageManager.modelLanguageName(this.bot, db.user)\<close>.
\<close>

record summarizer_env =
  countTokens :: "OpenAIChatMessage list \<Rightarrow> nat"
  utils_truncate :: "string \<Rightarrow> nat \<Rightarrow> string"
  targetLanguage :: string

text \<open>The two messages the builder assembles from the subtitles it is given.\<close>

definition summarizer_messages ::
    "summarizer_env \<Rightarrow> YouTubeVideo \<Rightarrow> YouTubeSubtitle list \<Rightarrow> SummaryType \<Rightarrow> OpenAIChatMessage list" where
  "summarizer_messages S video subtitles ty =
     [\<lparr>chat_content =
         ''You will be sent a transcript of a YouTube video titled '' @ video_title video
         @ '' uploaded by '' @ video_author video @ '', with the description \"\"\"''
         @ utils_truncate S (video_description video) 200 @ ''\"\"\". You must summarize it''
         @ (if targetLanguage S \<noteq> ''English''
            then '' in the language \"'' @ targetLanguage S @ ''\",'' else [])
         @ '' in '' @ type_prompt ty
         @ ''. In the summary, only reference the video and not the transcript sent by the user.\"'',
       role = ''system''\<rparr>,
      \<lparr>chat_content = join '' '' (map sub_content subtitles), role = ''assistant''\<rparr>]"

text \<open>
  \<^verbatim>\<open>buildSummarizerPrompt\<close>: \<^verbatim>\<open>arr.pop()\<close> removes the last subtitle, and the builder runs
  again on the shorter array.
\<close>

function buildSummarizerPrompt ::
    "summarizer_env \<Rightarrow> YouTubeVideo \<Rightarrow> YouTubeSubtitle list \<Rightarrow> SummaryType
       \<Rightarrow> js_error + SummaryPrompt" where
  "buildSummarizerPrompt S video subtitles ty =
     (if countTokens S (summarizer_messages S video subtitles ty) > 4000 \<and> subtitles = []
      then Inl (GPTGenerationError Length None)
      else if countTokens S (summarizer_messages S video subtitles ty) > 4000
      then buildSummarizerPrompt S video (butlast subtitles) ty
      else Inr \<lparr>messages = summarizer_messages S video subtitles ty,
                tokens = countTokens S (summarizer_messages S video subtitles ty)\<rparr>)"
  by pat_completeness auto
termination
  by (relation "measure (\<lambda>(S, video, subtitles, ty). length subtitles)") auto

declare buildSummarizerPrompt.simps [simp del]

section \<open>Sample inputs\<close>

text \<open>The fields as the constructor of \<^verbatim>\<open>Conversation\<close> sets them.\<close>

definition new_Conversation :: "string \<Rightarrow> Conversation" where
  "new_Conversation uid =
     \<lparr>user_id = uid, active = False, generating = False, history = [], updatedAt = None,
      ttl = 30 * 60 * 1000, timer = None, cooldown_time = CONVERSATION_DEFAULT_COOLDOWN,
      cooldown_state = None\<rparr>"

definition sample_world :: world where
  "sample_world = \<lparr>conv = (new_Conversation ''u1'')\<lparr>active := True\<rparr>, events = []\<rparr>"

definition sample_result :: ChatClientResult where
  "sample_result =
     \<lparr>result_input = \<lparr>content = ''hi'', documents = None, images = None\<rparr>,
      result_output = \<lparr>msg_id = ''m1'', raw = None, msg_type = Chat, msg_text = ''hello'',
                       msg_images = Some [\<lparr>image_rest = ''png'', data = [1, 2]\<rparr>]\<rparr>\<rparr>"

definition sample_model :: ChatSettingsModel where
  "sample_model = \<lparr>model_id = ''chatgpt'', model_cooldown = None, model_restricted = None\<rparr>"

text \<open>A reversible textual encoding of buffers: one character per byte.\<close>

definition sample_toString :: "ImageBuffer \<Rightarrow> string" where
  "sample_toString b = map (\<lambda>x. char_of (unat x)) b"

definition sample_load :: "string \<Rightarrow> ImageBuffer" where
  "sample_load s = map (\<lambda>c. of_nat (of_char c)) s"

fun sample_clock :: "clock_read \<Rightarrow> nat" where
  "sample_clock AtUpdated = 990"
| "sample_clock AtResetTime = 995"
| "sample_clock AtResult = 1000"
| "sample_clock AtCooldown = 1010"

definition sample_env :: "(nat \<Rightarrow> js_error + ChatClientResult) \<Rightarrow> env" where
  "sample_env f =
     \<lparr>transport = f, now = sample_clock, check_result = Inr None, broadcast_result = None,
      updateConversation_result = None, updateInteraction_result = None, dev = False,
      owner = [''boss''], subscriptionType = Voter, model = sample_model, tone_id = ''neutral'',
      buffer_toString = sample_toString\<rparr>"

definition sample_interaction :: ChatInteraction where
  "sample_interaction =
     \<lparr>i_input = result_input sample_result, i_output = result_output sample_result,
      moderation = None, trigger = Some ''t1'', reply = None, time = 1000\<rparr>"

definition sample_generated :: ChatGeneratedInteraction where
  "sample_generated =
     \<lparr>i_input = result_input sample_result, i_output = result_output sample_result,
      moderation = None, trigger = Some ''t1'', reply = None, time = 1000, tries = 0\<rparr>"

definition override_model :: ChatSettingsModel where
  "override_model =
     \<lparr>model_id = ''gpt-4'',
      model_cooldown = Some \<lparr>cd_time = Some 30000, cd_multiplier = None\<rparr>,
      model_restricted = None\<rparr>"

definition tuned_model :: ChatSettingsModel where
  "tuned_model =
     \<lparr>model_id = ''tuned'',
      model_cooldown = Some \<lparr>cd_time = None, cd_multiplier = Some (double_round 1.005)\<rparr>,
      model_restricted = None\<rparr>"

definition premium_model :: ChatSettingsModel where
  "premium_model =
     \<lparr>model_id = ''gpt-4'',
      model_cooldown = Some \<lparr>cd_time = Some 30000, cd_multiplier = Some 1.5\<rparr>,
      model_restricted = Some PremiumOnly\<rparr>"

definition succeeding :: "nat \<Rightarrow> js_error + ChatClientResult" where
  "succeeding n = Inr sample_result"

definition failing :: "js_error \<Rightarrow> nat \<Rightarrow> js_error + ChatClientResult" where
  "failing e n = Inl e"

definition unusable_at_tenth :: "nat \<Rightarrow> js_error + ChatClientResult" where
  "unusable_at_tenth n =
     (if n < 9 then Inl (TypeError ''fetch failed'')
      else Inl (GPTGenerationError SessionUnusable None))"

definition quota_at_tenth :: "nat \<Rightarrow> js_error + ChatClientResult" where
  "quota_at_tenth n =
     (if n < 9 then Inl (TypeError ''fetch failed'')
      else Inl (GPTAPIError ''insufficient_quota'' True))"

definition sample_options :: GeneratorOptions where
  "sample_options = \<lparr>opt_trigger = ''t1''\<rparr>"

definition sample_counter :: "OpenAIChatMessage list \<Rightarrow> nat" where
  "sample_counter ms =
     sum_list (map (\<lambda>m. if role m = ''assistant'' then 1001 * length (chat_content m) else 0) ms)"

definition sample_truncate :: "string \<Rightarrow> nat \<Rightarrow> string" where
  "sample_truncate s n = take n s"

definition sample_summarizer :: summarizer_env where
  "sample_summarizer =
     \<lparr>countTokens = sample_counter, utils_truncate = sample_truncate, targetLanguage = ''English''\<rparr>"

definition sample_video :: YouTubeVideo where
  "sample_video = \<lparr>video_title = ''T'', video_author = ''A'', video_description = ''D''\<rparr>"

definition sample_type :: SummaryType where
  "sample_type = \<lparr>type_name = ''Short'', type_prompt = ''a short text summary''\<rparr>"

definition oldest_subtitle :: YouTubeSubtitle where
  "oldest_subtitle = \<lparr>sub_content = ''ab'', sub_start = 0\<rparr>"

definition newest_subtitle :: YouTubeSubtitle where
  "newest_subtitle = \<lparr>sub_content = ''c'', sub_start = 5\<rparr>"

section \<open>Basic facts\<close>

lemma conv_emit [simp]: "conv (emit ev w) = conv w"
  by (simp add: emit_def)

lemma events_emit [simp]: "events (emit ev w) = events w @ [(generating (conv w), ev)]"
  by (simp add: emit_def)

lemma events_set_generating [simp]: "events (set_generating b w) = events w"
  by (simp add: set_generating_def)

lemma generating_set_generating [simp]: "generating (conv (set_generating b w)) = b"
  by (simp add: set_generating_def)

lemma rate_limited_not_unusable: "rate_limited e \<Longrightarrow> \<not> session_unusable e"
  by (cases e) auto

lemma session_unusable_recognized:
  "session_unusable e \<Longrightarrow> is_GPTGenerationError e \<or> is_GPTAPIError e"
  by (cases e) auto

lemma generate_unfold:
  assumes "active (conv w)" and "\<not> generating (conv w)"
  shows "generate E options w =
           (case generate_loop E 0 (loop_entry w) of
              (Thrown e, w3) \<Rightarrow> (Inl e, w3)
            | (Exited d n, w3) \<Rightarrow> after_loop E options d n w3)"
  using assms by (simp add: generate_def loop_entry_def Let_def)

lemma generating_loop_entry [simp]: "generating (conv (loop_entry w))"
  by (simp add: loop_entry_def set_generating_def)

lemma loop_event_not_cooldown: "is_loop_event ev \<Longrightarrow> \<not> is_CooldownUse ev"
  by (cases ev) auto

section \<open>Events and the lock\<close>

lemma extends_iff: "extends P w w' \<longleftrightarrow> (\<exists>xs. events w' = events w @ xs \<and> list_all P xs)"
proof
  assume "extends P w w'"
  then have "events w' = events w @ new_events w w'" "list_all P (new_events w w')"
    using append_take_drop_id [of "length (events w)" "events w'"]
    by (simp_all add: extends_def new_events_def)
  then show "\<exists>xs. events w' = events w @ xs \<and> list_all P xs" by blast
next
  assume "\<exists>xs. events w' = events w @ xs \<and> list_all P xs"
  then show "extends P w w'"
    by (auto simp add: extends_def new_events_def)
qed

lemma extends_refl: "extends P w w"
  by (simp add: extends_iff)

lemma extends_emit: "extends P w w' \<Longrightarrow> P (generating (conv w'), ev) \<Longrightarrow> extends P w (emit ev w')"
  by (auto simp add: extends_iff)

lemma extends_set_generating: "extends P w w' \<Longrightarrow> extends P w (set_generating b w')"
  by (simp add: extends_iff)

lemma extends_conv: "extends P w w' \<Longrightarrow> extends P w (w'\<lparr>conv := c\<rparr>)"
  by (simp add: extends_iff)

lemma extends_trans: "extends P w w' \<Longrightarrow> extends P w' w'' \<Longrightarrow> extends P w w''"
  by (auto simp add: extends_iff)

lemma extends_mono: "extends P w w' \<Longrightarrow> (\<And>x. P x \<Longrightarrow> Q x) \<Longrightarrow> extends Q w w'"
  by (auto simp add: extends_iff list_all_iff)

lemma extends_new_events: "extends P w w' \<Longrightarrow> list_all P (new_events w w')"
  by (simp add: extends_def)

lemma applyResetTimer_conv:
  "conv (applyResetTimer t t' w) = (conv w)\<lparr>updatedAt := Some t, timer := Some True\<rparr>"
  by (simp add: applyResetTimer_def Let_def)

lemma applyResetTimer_events:
  "events (applyResetTimer t t' w) =
     events w @ map (Pair (generating (conv w)))
       ((if timer (conv w) \<noteq> None then [ClearTimeout] else [])
        @ [ResetTimerArmed (max (int t + int (ttl (conv w)) - int t') 0)])"
  by (simp add: applyResetTimer_def Let_def getResetTime_def)

lemma on_error_extends:
  assumes "generating (conv w)"
  shows "extends (\<lambda>(g, ev). g \<and> is_loop_event ev) w (snd (on_error n e w))"
  using assms
  by (simp add: on_error_def Let_def extends_set_generating extends_emit extends_refl)

lemma loop_extends:
  assumes "generating (conv w)"
  shows "extends (\<lambda>(g, ev). g \<and> is_loop_event ev) w (snd (generate_loop E n w))"
  using assms
proof (induction E n w rule: generate_loop.induct)
  case (1 E n w)
  let ?P = "\<lambda>(g, ev). g \<and> is_loop_event ev"
  have call: "extends ?P w (emit (SessionGenerate n) w)"
    using "1.prems" by (simp add: extends_emit extends_refl)
  show ?case
  proof (cases "transport E n")
    case (Inr d)
    then show ?thesis using call
      by (subst generate_loop.simps) simp
  next
    case (Inl e)
    obtain s w1 where s: "on_error (Suc n) e (emit (SessionGenerate n) w) = (s, w1)"
      by (cases "on_error (Suc n) e (emit (SessionGenerate n) w)")
    have "extends ?P (emit (SessionGenerate n) w) w1"
      using on_error_extends [of "emit (SessionGenerate n) w" "Suc n" e] "1.prems" s by simp
    with call have w1: "extends ?P w w1" by (rule extends_trans)
    show ?thesis
    proof (cases "s = Retry \<and> Suc n < CONVERSATION_ERROR_RETRY_MAX_TRIES \<and> generating (conv w1)")
      case True
      have eq: "generate_loop E n w = generate_loop E (Suc n) w1"
        using Inl s True by (subst generate_loop.simps) simp
      have "extends ?P w1 (snd (generate_loop E (Suc n) w1))"
        using "1.IH" [OF Inl s [symmetric]] True by simp
      with w1 show ?thesis unfolding eq by (rule extends_trans)
    next
      case False
      then have "snd (generate_loop E n w) = w1"
        using Inl s by (subst generate_loop.simps) (cases s; auto)
      then show ?thesis using w1 by simp
    qed
  qed
qed

lemma after_loop_unlocked:
  "\<not> generating (conv (snd (after_loop E options d n w)))"
  by (simp add: after_loop_def pushToHistory_def applyResetTimer_conv cooldown_use_def Let_def
      split: option.splits sum.splits)

lemma applyResetTimer_extends:
  assumes "\<not> generating (conv w)"
  shows "extends (\<lambda>(g, ev). \<not> g \<and> \<not> is_loop_event ev) w (applyResetTimer t t' w)"
  using assms by (simp add: extends_iff applyResetTimer_events)

lemma after_loop_extends:
  "extends (\<lambda>(g, ev). \<not> g \<and> \<not> is_loop_event ev) w (snd (after_loop E options d n w))"
proof -
  let ?P = "\<lambda>(g, ev). \<not> g \<and> \<not> is_loop_event ev"
  have 1: "extends ?P w (applyResetTimer (now E AtUpdated) (now E AtResetTime)
                           (set_generating False w))"
    using applyResetTimer_extends [of "set_generating False w" "now E AtUpdated" "now E AtResetTime"]
    by (simp add: extends_iff)
  show ?thesis
    using 1
    by (simp add: after_loop_def pushToHistory_def applyResetTimer_conv cooldown_use_def Let_def
        extends_emit extends_conv
        split: option.splits sum.splits)
qed

lemma after_loop_success:
  assumes "after_loop E options d n w = (Inr r, w')"
  shows "\<exists>res m. d = Some res \<and> check_result E = Inr m
           \<and> broadcast_result E = None \<and> updateConversation_result E = None
           \<and> (dev E \<or> updateInteraction_result E = None)
           \<and> r = \<lparr>i_input = result_input res, i_output = result_output res, moderation = m,
                  trigger = Some (opt_trigger options), reply = None, time = now E AtResult, tries = n\<rparr>"
  using assms
  by (auto simp add: after_loop_def Let_def pushToHistory_def
      split: option.splits sum.splits prod.splits if_splits)

lemma cooldownTime_cong:
  "cooldown_time c = cooldown_time c' \<Longrightarrow> cooldownTime c sub m = cooldownTime c' sub m"
  by (simp add: cooldownTime_def baseDuration_def)

text \<open>The events of the part after the loop when every awaited call resolves.\<close>

lemma after_loop_success_events:
  assumes "check_result E = Inr m" and "broadcast_result E = None"
    and "updateConversation_result E = None" and "dev E \<or> updateInteraction_result E = None"
    and "e = \<lparr>i_input = result_input res, i_output = result_output res, moderation = m,
              trigger = Some (opt_trigger options), reply = None, time = now E AtResult\<rparr>"
  shows "events (snd (after_loop E options (Some res) n w)) =
           events w @ map (Pair False)
             ((if timer (conv w) \<noteq> None then [ClearTimeout] else [])
              @ [ResetTimerArmed (max (int (now E AtUpdated) + int (ttl (conv w)) - int (now E AtResetTime)) 0),
                 ModerationCheck (msg_text (result_output res)),
                 HistoryPush e,
                 BroadcastEval (user_id (conv w)) (broadcast_payload (history (conv w) @ [e])),
                 UpdateConversation (stripped_history (buffer_toString E) (history (conv w) @ [e]))]
              @ (if dev E then []
                 else [UpdateInteraction
                         \<lparr>db_id = msg_id (result_output res), db_input = result_input res,
                          db_output = responseMessageToDatabase (buffer_toString E) (result_output res)\<rparr>
                         (model_id (model E)) (tone_id E)])
              @ (if user_id (conv w) \<in> set (owner E) then []
                 else [CooldownUse (cooldownTime (conv w) (subscriptionType E) (model E))]))"
proof -
  have ct: "cooldownTime (c\<lparr>history := h\<rparr>) sub mo = cooldownTime (conv w) sub mo"
    if "cooldown_time c = cooldown_time (conv w)" for c h sub mo
    using that by (intro cooldownTime_cong) simp
  show ?thesis
    using assms
    by (auto simp add: after_loop_def Let_def pushToHistory_def applyResetTimer_conv
        applyResetTimer_events cooldown_use_def set_generating_def getResetTime_def ct)
qed

lemma after_loop_success_conv:
  assumes "check_result E = Inr m" and "broadcast_result E = None"
    and "updateConversation_result E = None" and "dev E \<or> updateInteraction_result E = None"
    and "e = \<lparr>i_input = result_input res, i_output = result_output res, moderation = m,
              trigger = Some (opt_trigger options), reply = None, time = now E AtResult\<rparr>"
  shows "conv (snd (after_loop E options (Some res) n w)) =
           (conv w)\<lparr>generating := False, updatedAt := Some (now E AtUpdated), timer := Some True,
                    history := history (conv w) @ [e],
                    cooldown_state :=
                      (if user_id (conv w) \<in> set (owner E) then cooldown_state (conv w)
                       else Some \<lparr>startedAt = now E AtCooldown,
                                  expiresIn = cooldownTime (conv w) (subscriptionType E) (model E)\<rparr>)\<rparr>"
proof -
  have ct: "cooldownTime (c\<lparr>history := h\<rparr>) sub mo = cooldownTime (conv w) sub mo"
    if "cooldown_time c = cooldown_time (conv w)" for c h sub mo
    using that by (intro cooldownTime_cong) simp
  show ?thesis
    using assms
    by (auto simp add: after_loop_def Let_def pushToHistory_def applyResetTimer_conv
        cooldown_use_def set_generating_def ct)
qed

text \<open>The loop changes no field of the conversation but \<^verbatim>\<open>generating\<close>.\<close>

lemma on_error_frame:
  "conv (snd (on_error n e w)) = (conv w)\<lparr>generating := generating (conv (snd (on_error n e w)))\<rparr>"
  by (simp add: on_error_def Let_def set_generating_def)

lemma loop_frame:
  "conv (snd (generate_loop E n w)) =
     (conv w)\<lparr>generating := generating (conv (snd (generate_loop E n w)))\<rparr>"
proof (induction E n w rule: generate_loop.induct)
  case (1 E n w)
  show ?case
  proof (cases "transport E n")
    case (Inr d)
    then show ?thesis
      by (subst (1 2) generate_loop.simps) simp
  next
    case (Inl e)
    obtain s w1 where s: "on_error (Suc n) e (emit (SessionGenerate n) w) = (s, w1)"
      by (cases "on_error (Suc n) e (emit (SessionGenerate n) w)")
    have w1: "conv w1 = (conv w)\<lparr>generating := generating (conv w1)\<rparr>"
      using on_error_frame [of "Suc n" e "emit (SessionGenerate n) w"] s by simp
    show ?thesis
    proof (cases "s = Retry \<and> Suc n < CONVERSATION_ERROR_RETRY_MAX_TRIES \<and> generating (conv w1)")
      case True
      have eq: "generate_loop E n w = generate_loop E (Suc n) w1"
        using Inl s True by (subst generate_loop.simps) simp
      have "conv (snd (generate_loop E (Suc n) w1)) =
              (conv w1)\<lparr>generating := generating (conv (snd (generate_loop E (Suc n) w1)))\<rparr>"
        using "1.IH" [OF Inl s [symmetric]] True by simp
      then show ?thesis unfolding eq by (subst (asm) w1) simp
    next
      case False
      then have "snd (generate_loop E n w) = w1"
        using Inl s by (subst generate_loop.simps) (cases s; auto)
      then show ?thesis using w1 by simp
    qed
  qed
qed

lemma loop_fields:
  "history (conv (snd (generate_loop E n w))) = history (conv w)"
  "user_id (conv (snd (generate_loop E n w))) = user_id (conv w)"
  "cooldown_time (conv (snd (generate_loop E n w))) = cooldown_time (conv w)"
  "cooldown_state (conv (snd (generate_loop E n w))) = cooldown_state (conv w)"
  using arg_cong [OF loop_frame, of history E n w] arg_cong [OF loop_frame, of user_id E n w]
    arg_cong [OF loop_frame, of cooldown_time E n w] arg_cong [OF loop_frame, of cooldown_state E n w]
  by simp_all

lemma loop_entry_fields:
  "history (conv (loop_entry w)) = history (conv w)"
  "user_id (conv (loop_entry w)) = user_id (conv w)"
  "cooldown_time (conv (loop_entry w)) = cooldown_time (conv w)"
  "cooldown_state (conv (loop_entry w)) = cooldown_state (conv w)"
  by (simp_all add: loop_entry_def set_generating_def)

text \<open>A successful call, taken apart: the loop exits with a result, and every awaited call resolves.\<close>

lemma generate_success:
  assumes "generate E options w = (Inr r, w')"
  obtains res n m w3 where
    "active (conv w)" and "\<not> generating (conv w)"
    and "generate_loop E 0 (loop_entry w) = (Exited (Some res) n, w3)"
    and "after_loop E options (Some res) n w3 = (Inr r, w')"
    and "check_result E = Inr m" and "broadcast_result E = None"
    and "updateConversation_result E = None" and "dev E \<or> updateInteraction_result E = None"
    and "r = \<lparr>i_input = result_input res, i_output = result_output res, moderation = m,
              trigger = Some (opt_trigger options), reply = None, time = now E AtResult, tries = n\<rparr>"
proof -
  from assms have a: "active (conv w)" "\<not> generating (conv w)"
    by (auto simp add: generate_def split: if_splits)
  obtain out w3 where loop: "generate_loop E 0 (loop_entry w) = (out, w3)"
    by (cases "generate_loop E 0 (loop_entry w)")
  from assms loop obtain d n where out: "out = Exited d n"
    and al: "after_loop E options d n w3 = (Inr r, w')"
    by (cases out) (simp_all add: generate_unfold [OF a])
  from after_loop_success [OF al] obtain res m where
    "d = Some res" "check_result E = Inr m" "broadcast_result E = None"
    "updateConversation_result E = None" "dev E \<or> updateInteraction_result E = None"
    "r = \<lparr>i_input = result_input res, i_output = result_output res, moderation = m,
              trigger = Some (opt_trigger options), reply = None, time = now E AtResult, tries = n\<rparr>"
    by blast
  with a loop out al show ?thesis by (intro that) auto
qed

section \<open>The retry policy\<close>





lemma loop_tenth:
  assumes "transport E 9 = Inl e"
  shows "generate_loop E 9 w =
           (Thrown (if is_GPTGenerationError e \<or> is_GPTAPIError e then e
                    else GPTGenerationError Other (Some e)),
            set_generating False (emit (SessionGenerate 9) w))"
  using assms
  by (subst generate_loop.simps)
     (simp add: on_error_def CONVERSATION_ERROR_RETRY_MAX_TRIES_def)

lemma loop_retry:
  assumes "transport E n = Inl e" and "retried e" and "n < 9" and "generating (conv w)"
  shows "\<exists>w'. generate_loop E n w = generate_loop E (Suc n) w' \<and> conv w' = conv w"
  using assms
  by (subst generate_loop.simps)
     (auto simp add: retried_def on_error_def CONVERSATION_ERROR_RETRY_MAX_TRIES_def Let_def)

lemma loop_reaches:
  assumes "n \<le> m" and "m \<le> 9" and "generating (conv w)"
    and "\<forall>k. n \<le> k \<and> k < m \<longrightarrow> (\<exists>e. transport E k = Inl e \<and> retried e)"
  shows "\<exists>w'. generate_loop E n w = generate_loop E m w' \<and> conv w' = conv w"
  using assms(1,3,4)
proof (induction n arbitrary: w rule: inc_induct)
  case base
  then show ?case by blast
next
  case (step n)
  from step.prems step.hyps obtain e where e: "transport E n = Inl e" "retried e"
    by auto
  have n9: "n < 9" using step.hyps(2) assms(2) by simp
  from loop_retry [OF e n9 step.prems(1)]
  obtain w1 where w1: "generate_loop E n w = generate_loop E (Suc n) w1" "conv w1 = conv w"
    by blast
  have "\<exists>w'. generate_loop E (Suc n) w1 = generate_loop E m w' \<and> conv w' = conv w1"
    using step.prems w1 by (intro step.IH) auto
  then show ?case using w1 by auto
qed

lemma loop_reaches_tenth:
  assumes "n \<le> 9" and "generating (conv w)"
    and "\<forall>k. n \<le> k \<and> k < 9 \<longrightarrow> (\<exists>e. transport E k = Inl e \<and> retried e)"
  shows "\<exists>w'. generate_loop E n w = generate_loop E 9 w' \<and> conv w' = conv w"
  using loop_reaches [OF assms(1) order_refl assms(2,3)] .

text \<open>
  C3. When nine attempts have failed with errors the loop retries and the tenth attempt
  fails with \<open>e\<close>, \<^verbatim>\<open>generate\<close> throws: \<open>e\<close> itself when it is a generation error or an API
  error, and otherwise a generation error of type \<open>Other\<close> with \<open>e\<close> as its cause; the
  \<^verbatim>\<open>generating\<close> flag is cleared.
\<close>

theorem retries_exhausted:
  assumes "active (conv w)" and "\<not> generating (conv w)"
    and "\<forall>k<9. \<exists>e'. transport E k = Inl e' \<and> retried e'"
    and "transport E 9 = Inl e"
  shows "fst (generate E options w) =
           Inl (if is_GPTGenerationError e \<or> is_GPTAPIError e then e
                else GPTGenerationError Other (Some e))
         \<and> \<not> generating (conv (snd (generate E options w)))"
proof -
  from loop_reaches_tenth [of 0 "loop_entry w" E] assms(3)
  obtain w' where w': "generate_loop E 0 (loop_entry w) = generate_loop E 9 w'" by auto
  show ?thesis
    by (simp add: generate_unfold [OF assms(1,2)] w' loop_tenth [OF assms(4)])
qed

theorem retries_exhausted_witness:
  "fst (generate (sample_env (failing (Error ''boom''))) sample_options sample_world) =
     Inl (GPTGenerationError Other (Some (Error ''boom'')))
   \<and> \<not> generating (conv (snd (generate (sample_env (failing (Error ''boom'')))
                                 sample_options sample_world)))"
  using retries_exhausted [of sample_world "sample_env (failing (Error ''boom''))"
      "Error ''boom''" sample_options]
  by (simp add: sample_env_def sample_world_def new_Conversation_def retried_def failing_def)

text \<open>
  C1, as the code has it. A session-unusable error at one of the attempts 1 to 9 makes the
  loop throw a \<open>SessionUnusable\<close> generation error at once, after the warning and the
  notice, with no wait and no further attempt. At the tenth attempt the test for exhausted
  retries comes first, and the error is thrown again as it is.
\<close>

theorem session_unusable_precedence:
  assumes "transport E n = Inl e" and "session_unusable e"
  shows "(n < 9 \<longrightarrow>
            fst (generate_loop E n w) = Thrown (GPTGenerationError SessionUnusable None)
          \<and> map snd (events (snd (generate_loop E n w))) =
              map snd (events w) @ [SessionGenerate n, LoggerWarn (Suc n) e, OnProgressNotice (Suc n)])
       \<and> (n = 9 \<longrightarrow>
            fst (generate_loop E n w) = Thrown e
          \<and> map snd (events (snd (generate_loop E n w))) = map snd (events w) @ [SessionGenerate n])"
  using assms session_unusable_recognized [OF assms(2)]
  by (subst (1 2 3 4) generate_loop.simps)
     (auto simp add: on_error_def CONVERSATION_ERROR_RETRY_MAX_TRIES_def Let_def)

theorem session_unusable_precedence_witness:
  "fst (generate_loop (sample_env (failing (GPTAPIError ''access_terminated'' True))) 0
          (set_generating True sample_world)) = Thrown (GPTGenerationError SessionUnusable None)
   \<and> map snd (events (snd (generate_loop
          (sample_env (failing (GPTAPIError ''access_terminated'' True))) 0
          (set_generating True sample_world)))) =
       [SessionGenerate 0, LoggerWarn (Suc 0) (GPTAPIError ''access_terminated'' True),
        OnProgressNotice (Suc 0)]"
  using session_unusable_precedence [of "sample_env (failing (GPTAPIError ''access_terminated'' True))"
      0 "GPTAPIError ''access_terminated'' True" "set_generating True sample_world"]
  by (simp add: sample_env_def sample_world_def failing_def)

text \<open>
  The claim C1 as stated fails at the tenth attempt: after nine rate-limited attempts, an
  API error for a depleted quota leaves \<^verbatim>\<open>generate\<close> as it came, not as \<open>SessionUnusable\<close>.
\<close>

theorem session_unusable_tenth_counterexample:
  "session_unusable (GPTAPIError ''insufficient_quota'' True)
   \<and> fst (generate
            (sample_env quota_at_tenth) sample_options sample_world) = Inl (GPTAPIError ''insufficient_quota'' True)
   \<and> GPTAPIError ''insufficient_quota'' True \<noteq> GPTGenerationError SessionUnusable None"
  by (simp add: generate_def generate_loop.simps sample_env_def sample_world_def
      new_Conversation_def on_error_def CONVERSATION_ERROR_RETRY_MAX_TRIES_def Let_def
      quota_at_tenth_def)

section \<open>The states of a conversation\<close>

lemma act_invariant:
  assumes "generating c \<longrightarrow> active c"
  shows "generating (act a c) \<longrightarrow> active (act a c)"
  using assms by (cases a) simp_all

lemma run_invariant:
  assumes "generating c \<longrightarrow> active c"
  shows "generating (run acts c) \<longrightarrow> active (run acts c)"
  using assms unfolding run_def
  by (induction acts arbitrary: c) (simp_all add: act_invariant)

text \<open>A conversation that generates is active, in every state the class brings it to.\<close>

lemma generating_is_active:
  assumes "c = run acts (new_Conversation uid)" and "generating c"
  shows "active c"
  using run_invariant [of "new_Conversation uid" acts] assms
  by (simp add: new_Conversation_def)

text \<open>
  The three methods that assign \<^verbatim>\<open>active\<close> or \<^verbatim>\<open>generating\<close> stay within these states:
  what each of them makes of a conversation is the result of some assignments of \<open>act\<close>.
\<close>

lemma after_loop_fields:
  "user_id (conv (snd (after_loop E options d n w))) = user_id (conv w)"
  "ttl (conv (snd (after_loop E options d n w))) = ttl (conv w)"
  "cooldown_time (conv (snd (after_loop E options d n w))) = cooldown_time (conv w)"
  "active (conv (snd (after_loop E options d n w))) = active (conv w)"
  by (simp_all add: after_loop_def pushToHistory_def applyResetTimer_conv cooldown_use_def
      Let_def set_generating_def split: option.splits sum.splits)

lemma loop_more_fields:
  "ttl (conv (snd (generate_loop E n w))) = ttl (conv w)"
  "active (conv (snd (generate_loop E n w))) = active (conv w)"
  using arg_cong [OF loop_frame, of ttl E n w] arg_cong [OF loop_frame, of active E n w]
  by simp_all

lemma fields_run:
  assumes "user_id c' = user_id c" and "ttl c' = ttl c" and "cooldown_time c' = cooldown_time c"
    and "active c' = active c" and "generating c' \<longrightarrow> generating c \<or> active c"
  shows "c' = run [if generating c' then Lock else Unlock, SetHistory (history c'),
                   SetUpdatedAt (updatedAt c'), SetTimer (timer c'),
                   SetCooldown (cooldown_state c')] c"
  using assms by (cases c; cases c') (auto simp add: run_def)

lemma generate_run:
  "\<exists>acts. conv (snd (generate E options w)) = run acts (conv w)"
proof (cases "active (conv w) \<and> \<not> generating (conv w)")
  case False
  then have "snd (generate E options w) = w"
    by (auto simp add: generate_def)
  then have "conv (snd (generate E options w)) = run [] (conv w)"
    by (simp add: run_def)
  then show ?thesis by blast
next
  case True
  then have a: "active (conv w)" "\<not> generating (conv w)" by simp_all
  obtain out w3 where loop: "generate_loop E 0 (loop_entry w) = (out, w3)"
    by (cases "generate_loop E 0 (loop_entry w)")
  have w3: "w3 = snd (generate_loop E 0 (loop_entry w))" using loop by simp
  have e: "user_id (conv (loop_entry w)) = user_id (conv w)" "ttl (conv (loop_entry w)) = ttl (conv w)"
    "cooldown_time (conv (loop_entry w)) = cooldown_time (conv w)"
    "active (conv (loop_entry w)) = active (conv w)"
    by (simp_all add: loop_entry_def set_generating_def)
  have f3: "user_id (conv w3) = user_id (conv w)" "ttl (conv w3) = ttl (conv w)"
    "cooldown_time (conv w3) = cooldown_time (conv w)" "active (conv w3) = active (conv w)"
    unfolding w3 by (simp_all add: loop_fields loop_more_fields e)
  let ?c = "conv (snd (generate E options w))"
  have "user_id ?c = user_id (conv w) \<and> ttl ?c = ttl (conv w)
        \<and> cooldown_time ?c = cooldown_time (conv w) \<and> active ?c = active (conv w)"
    using loop f3 by (cases out) (simp_all add: generate_unfold [OF a] after_loop_fields)
  then have "?c = run [if generating ?c then Lock else Unlock, SetHistory (history ?c),
                       SetUpdatedAt (updatedAt ?c), SetTimer (timer ?c),
                       SetCooldown (cooldown_state ?c)] (conv w)"
    using a by (intro fields_run) simp_all
  then show ?thesis by blast
qed

lemma init_run:
  "\<exists>acts. conv (snd (init fetched created t t' w)) = run acts (conv w)"
proof (cases "fetched = None \<and> (history (conv w) = [] \<longrightarrow> created = None)")
  case True
  then have "conv (snd (init fetched created t t' w)) =
               run [SetUpdatedAt (Some t), SetTimer (Some True), Activate] (conv w)"
    by (auto simp add: init_def Let_def applyResetTimer_conv run_def)
  then show ?thesis by blast
next
  case False
  then have "conv (snd (init fetched created t t' w)) = run [] (conv w)"
    by (auto simp add: init_def Let_def run_def split: option.splits)
  then show ?thesis by blast
qed

lemma reset_run:
  "\<exists>acts. conv (snd (reset remove answered t t' w)) = run acts (conv w)"
proof (cases answered)
  case None
  then have "conv (snd (reset remove answered t t' w)) =
               run [SetUpdatedAt (Some t), SetTimer (Some True), SetHistory [], Reset remove] (conv w)"
    by (simp add: reset_def Let_def applyResetTimer_conv run_def)
  then show ?thesis by blast
next
  case (Some e)
  then have "conv (snd (reset remove answered t t' w)) =
               run [SetUpdatedAt (Some t), SetTimer (Some True), SetHistory []] (conv w)"
    by (simp add: reset_def Let_def applyResetTimer_conv run_def)
  then show ?thesis by blast
qed

text \<open>
  C5. On a conversation in a state the class brings it to, with the \<^verbatim>\<open>generating\<close> flag
  set, \<^verbatim>\<open>generate\<close> throws \<open>Busy\<close> and leaves the conversation as it is, the history
  included, and calls nothing.
\<close>

theorem busy_rejected:
  assumes "conv w = run acts (new_Conversation uid)" and "generating (conv w)"
  shows "generate E options w = (Inl (GPTGenerationError Busy None), w)"
  using generating_is_active [OF assms] assms(2) by (simp add: generate_def)

theorem busy_rejected_witness:
  "generate (sample_env succeeding) sample_options (set_generating True sample_world) =
     (Inl (GPTGenerationError Busy None), set_generating True sample_world)"
  using busy_rejected [of "set_generating True sample_world" "[Activate, Lock]" "''u1''"
      "sample_env succeeding" sample_options]
  by (simp add: set_generating_def sample_world_def new_Conversation_def run_def)

section \<open>The lock during a call\<close>

lemma loop_entry_extends:
  "extends (\<lambda>(g, ev). g \<and> ev = ClearTimeout) w (loop_entry w)"
  by (simp add: loop_entry_def extends_conv extends_emit extends_set_generating extends_refl)

lemma generate_extends:
  assumes "active (conv w)" and "\<not> generating (conv w)"
  shows "extends (\<lambda>(g, ev). (is_loop_event ev \<longrightarrow> g) \<and> (\<not> is_loop_event ev \<and> ev \<noteq> ClearTimeout \<longrightarrow> \<not> g))
           w (snd (generate E options w))"
proof -
  let ?P = "\<lambda>(g, ev). (is_loop_event ev \<longrightarrow> g) \<and> (\<not> is_loop_event ev \<and> ev \<noteq> ClearTimeout \<longrightarrow> \<not> g)"
  obtain out w3 where loop: "generate_loop E 0 (loop_entry w) = (out, w3)"
    by (cases "generate_loop E 0 (loop_entry w)")
  have 1: "extends ?P w (loop_entry w)"
    by (rule extends_mono [OF loop_entry_extends]) auto
  have "extends (\<lambda>(g, ev). g \<and> is_loop_event ev) (loop_entry w) w3"
    using loop_extends [of "loop_entry w" E 0] loop by simp
  then have 2: "extends ?P (loop_entry w) w3"
    by (rule extends_mono) auto
  have 3: "extends ?P w3 (snd (after_loop E options d n w3))" for d n
    by (rule extends_mono [OF after_loop_extends]) auto
  have "extends ?P w3 (snd (generate E options w))"
    using loop 3 by (cases out) (simp_all add: generate_unfold [OF assms] extends_refl)
  with 1 2 show ?thesis by (blast intro: extends_trans)
qed

lemma failed_with_iff: "failed_with P E n \<longleftrightarrow> (\<exists>e. transport E n = Inl e \<and> P e)"
  by (cases "transport E n") (simp_all add: failed_with_def)

lemma takes_unusable_branch_iff:
  "takes_unusable_branch E \<longleftrightarrow>
     (\<exists>n<9. failed_with session_unusable E n \<and> (\<forall>j<n. failed_with retried E j))"
  by (auto simp add: takes_unusable_branch_def list_ex_iff list_all_iff)

lemma on_error_retry:
  assumes "on_error (Suc n) e w = (Retry, w1)" and "n < 9"
  shows "retried e"
  using assms
  by (auto simp add: on_error_def retried_def Let_def CONVERSATION_ERROR_RETRY_MAX_TRIES_def
      rate_limited_not_unusable split: if_splits)

lemma on_error_throw:
  assumes "on_error (Suc n) e w = (Throw x, w1)" and "\<not> (n < 9 \<and> session_unusable e)" and "n \<le> 9"
  shows "\<not> generating (conv w1)"
  using assms
  by (auto simp add: on_error_def Let_def CONVERSATION_ERROR_RETRY_MAX_TRIES_def split: if_splits)

text \<open>
  A loop that throws without reaching the branch of lines 332 to 336 has cleared the flag.
\<close>

lemma loop_lock_path:
  assumes "generating (conv w)" and "n \<le> 9"
    and "\<forall>k. n \<le> k \<and> k < 9 \<and> (\<forall>j. n \<le> j \<and> j < k \<longrightarrow> failed_with retried E j)
             \<longrightarrow> \<not> failed_with session_unusable E k"
    and "fst (generate_loop E n w) = Thrown e"
  shows "\<not> generating (conv (snd (generate_loop E n w)))"
  using assms
proof (induction E n w rule: generate_loop.induct)
  case (1 E n w)
  show ?case
  proof (cases "transport E n")
    case (Inr d)
    then have "generate_loop E n w = (Exited (Some d) n, emit (SessionGenerate n) w)"
      by (subst generate_loop.simps) simp
    then show ?thesis using "1.prems" by simp
  next
    case (Inl e')
    obtain s w1 where s: "on_error (Suc n) e' (emit (SessionGenerate n) w) = (s, w1)"
      by (cases "on_error (Suc n) e' (emit (SessionGenerate n) w)")
    have nu: "\<not> (n < 9 \<and> session_unusable e')"
      using "1.prems"(3) Inl by (auto simp add: failed_with_iff)
    show ?thesis
    proof (cases "s = Retry \<and> Suc n < CONVERSATION_ERROR_RETRY_MAX_TRIES \<and> generating (conv w1)")
      case True
      then have n9: "n < 9" by (simp add: CONVERSATION_ERROR_RETRY_MAX_TRIES_def)
      have eq: "generate_loop E n w = generate_loop E (Suc n) w1"
        using Inl s True by (subst generate_loop.simps) simp
      have "retried e'" using s True n9 by (auto intro: on_error_retry)
      then have r: "failed_with retried E n" using Inl by (simp add: failed_with_iff)
      have hyp: "\<forall>k. Suc n \<le> k \<and> k < 9 \<and> (\<forall>j. Suc n \<le> j \<and> j < k \<longrightarrow> failed_with retried E j)
                   \<longrightarrow> \<not> failed_with session_unusable E k"
      proof (intro allI impI)
        fix k
        assume k: "Suc n \<le> k \<and> k < 9 \<and> (\<forall>j. Suc n \<le> j \<and> j < k \<longrightarrow> failed_with retried E j)"
        have "failed_with retried E j" if "n \<le> j \<and> j < k" for j
        proof (cases "j = n")
          case True
          then show ?thesis using r by simp
        next
          case False
          with that k show ?thesis by auto
        qed
        with k "1.prems"(3) show "\<not> failed_with session_unusable E k" by auto
      qed
      have "\<not> generating (conv (snd (generate_loop E (Suc n) w1)))"
        using "1.IH" [OF Inl s [symmetric]] True n9 hyp "1.prems"(4) unfolding eq by simp
      then show ?thesis unfolding eq .
    next
      case False
      have eq: "generate_loop E n w = (case s of Throw x \<Rightarrow> Thrown x | Retry \<Rightarrow> Exited None (Suc n), w1)"
        using Inl s False by (subst generate_loop.simps) (cases s; auto)
      show ?thesis
      proof (cases s)
        case (Throw x)
        then show ?thesis
          using on_error_throw [OF s [unfolded Throw] nu "1.prems"(2)] unfolding eq by simp
      next
        case Retry
        then show ?thesis using "1.prems"(4) unfolding eq by simp
      qed
    qed
  qed
qed

lemma loop_unusable:
  assumes "transport E n = Inl e" and "session_unusable e" and "n < 9"
  shows "generate_loop E n w =
           (Thrown (GPTGenerationError SessionUnusable None),
            emit (OnProgressNotice (Suc n)) (emit (LoggerWarn (Suc n) e)
              (emit (SessionGenerate n) w)))"
  using assms
  by (subst generate_loop.simps)
     (simp add: on_error_def CONVERSATION_ERROR_RETRY_MAX_TRIES_def Let_def)

text \<open>
  The branch of lines 332 to 336 does not clear the flag, unlike the other branches that
  throw: a call that reaches it leaves \<^verbatim>\<open>generate\<close> with a \<open>SessionUnusable\<close> error and
  \<^verbatim>\<open>generating\<close> still true.
\<close>

lemma unusable_branch_keeps_lock:
  assumes "active (conv w)" and "\<not> generating (conv w)" and "takes_unusable_branch E"
  shows "fst (generate E options w) = Inl (GPTGenerationError SessionUnusable None)
         \<and> generating (conv (snd (generate E options w)))"
proof -
  from assms(3) obtain m e where m: "m < 9" "transport E m = Inl e" "session_unusable e"
    and before: "\<forall>j<m. failed_with retried E j"
    by (auto simp add: takes_unusable_branch_iff failed_with_iff)
  have "\<forall>k. 0 \<le> k \<and> k < m \<longrightarrow> (\<exists>e. transport E k = Inl e \<and> retried e)"
    using before by (simp add: failed_with_iff)
  from loop_reaches [OF _ _ _ this, of "loop_entry w"] m(1)
  obtain w' where w': "generate_loop E 0 (loop_entry w) = generate_loop E m w'"
    "conv w' = conv (loop_entry w)"
    by auto
  show ?thesis
    by (simp add: generate_unfold [OF assms(1,2)] w' loop_unusable [OF m(2,3,1)])
qed

text \<open>
  C2, as the code has it. On an active conversation that is not generating, and in a call
  during which no other method of the conversation runs, every event of the retry loop
  (attempt, warning, notice, wait) happens with \<^verbatim>\<open>generating\<close> set, and everything after
  the loop (the moderation check, the history, the broadcast, the database, the cool-down)
  happens with it cleared; and when the call settles on any path but the branch of lines
  332 to 336, \<^verbatim>\<open>generating\<close> is false.
\<close>

theorem generating_lock:
  assumes "active (conv w)" and "\<not> generating (conv w)"
  shows "list_all (\<lambda>(g, ev). (is_loop_event ev \<longrightarrow> g)
                            \<and> (\<not> is_loop_event ev \<and> ev \<noteq> ClearTimeout \<longrightarrow> \<not> g))
           (new_events w (snd (generate E options w)))
         \<and> (\<not> takes_unusable_branch E
              \<longrightarrow> \<not> generating (conv (snd (generate E options w))))"
proof -
  obtain out w3 where loop: "generate_loop E 0 (loop_entry w) = (out, w3)"
    by (cases "generate_loop E 0 (loop_entry w)")
  have "\<not> generating (conv (snd (generate E options w)))" if "\<not> takes_unusable_branch E"
  proof (cases out)
    case (Thrown e)
    have "\<forall>k. 0 \<le> k \<and> k < 9 \<and> (\<forall>j. 0 \<le> j \<and> j < k \<longrightarrow> failed_with retried E j)
             \<longrightarrow> \<not> failed_with session_unusable E k"
      using that by (auto simp add: takes_unusable_branch_iff)
    from loop_lock_path [OF _ _ this, of "loop_entry w" e] loop Thrown show ?thesis
      by (simp add: generate_unfold [OF assms])
  next
    case (Exited d n)
    with loop show ?thesis
      by (simp add: generate_unfold [OF assms] after_loop_unlocked)
  qed
  with extends_new_events [OF generate_extends [OF assms]] show ?thesis
    by blast
qed

theorem generating_lock_witness:
  "fst (generate (sample_env unusable_at_tenth) sample_options sample_world) =
     Inl (GPTGenerationError SessionUnusable None)
   \<and> list_all (\<lambda>(g, ev). (is_loop_event ev \<longrightarrow> g)
                         \<and> (\<not> is_loop_event ev \<and> ev \<noteq> ClearTimeout \<longrightarrow> \<not> g))
       (new_events sample_world
          (snd (generate (sample_env unusable_at_tenth) sample_options sample_world)))
   \<and> \<not> generating (conv (snd (generate (sample_env unusable_at_tenth)
                                 sample_options sample_world)))"
proof -
  have 1: "fst (generate (sample_env unusable_at_tenth) sample_options sample_world) =
             Inl (GPTGenerationError SessionUnusable None)"
    by (simp add: generate_def generate_loop.simps sample_env_def sample_world_def
        new_Conversation_def on_error_def CONVERSATION_ERROR_RETRY_MAX_TRIES_def Let_def
        unusable_at_tenth_def)
  have 2: "\<not> takes_unusable_branch (sample_env unusable_at_tenth)"
    by (auto simp add: takes_unusable_branch_iff failed_with_iff sample_env_def
        unusable_at_tenth_def)
  show ?thesis
    using generating_lock [of sample_world "sample_env unusable_at_tenth" sample_options] 1 2
    by (simp add: sample_world_def new_Conversation_def)
qed

text \<open>
  The claim C2 as stated fails on a call that succeeds at the first attempt: the flag is
  cleared right after the loop, and the moderation check of the output runs with it
  cleared, while the call is still under way.
\<close>

theorem generating_lock_counterexample:
  "active (conv sample_world) \<and> \<not> generating (conv sample_world)
   \<and> (False, ModerationCheck ''hello'')
       \<in> set (new_events sample_world
                (snd (generate (sample_env succeeding) sample_options sample_world)))"
  by (simp add: generate_def generate_loop.simps after_loop_def pushToHistory_def
      applyResetTimer_def cooldown_use_def new_events_def emit_def set_generating_def
      sample_env_def sample_world_def sample_result_def
      new_Conversation_def succeeding_def Let_def)

section \<open>A successful call\<close>

text \<open>A successful call: its new events, the history and the cool-down it leaves.\<close>

lemma successful_call:
  assumes "generate E options w = (Inr r, w')"
    and "e = \<lparr>i_input = i_input r, i_output = i_output r, moderation = moderation r,
              trigger = trigger r, reply = reply r, time = time r\<rparr>"
  shows "(\<exists>pre. map snd (new_events w w') =
             pre @ [HistoryPush e,
                    BroadcastEval (user_id (conv w)) (broadcast_payload (history (conv w) @ [e])),
                    UpdateConversation (stripped_history (buffer_toString E) (history (conv w) @ [e]))]
                 @ (if dev E then []
                    else [UpdateInteraction
                            \<lparr>db_id = msg_id (i_output r), db_input = i_input r,
                             db_output = responseMessageToDatabase (buffer_toString E) (i_output r)\<rparr>
                            (model_id (model E)) (tone_id E)])
                 @ (if user_id (conv w) \<in> set (owner E) then []
                    else [CooldownUse (cooldownTime (conv w) (subscriptionType E) (model E))])
           \<and> list_all (\<lambda>ev. \<not> is_CooldownUse ev) pre)
       \<and> history (conv w') = history (conv w) @ [e]
       \<and> updateConversation_result E = None
       \<and> cooldown_state (conv w') =
             (if user_id (conv w) \<in> set (owner E) then cooldown_state (conv w)
              else Some \<lparr>startedAt = now E AtCooldown,
                         expiresIn = cooldownTime (conv w) (subscriptionType E) (model E)\<rparr>)"
proof -
  from assms(1) obtain res n m w3 where
    a: "active (conv w)" "\<not> generating (conv w)"
    and loop: "generate_loop E 0 (loop_entry w) = (Exited (Some res) n, w3)"
    and al: "after_loop E options (Some res) n w3 = (Inr r, w')"
    and ok: "check_result E = Inr m" "broadcast_result E = None"
      "updateConversation_result E = None" "dev E \<or> updateInteraction_result E = None"
    and r: "r = \<lparr>i_input = result_input res, i_output = result_output res, moderation = m,
              trigger = Some (opt_trigger options), reply = None, time = now E AtResult, tries = n\<rparr>"
    by (rule generate_success)
  have e: "e = \<lparr>i_input = result_input res, i_output = result_output res, moderation = m,
              trigger = Some (opt_trigger options), reply = None, time = now E AtResult\<rparr>"
    using assms(2) r by simp
  have w3: "w3 = snd (generate_loop E 0 (loop_entry w))" using loop by simp
  have f3: "history (conv w3) = history (conv w)" "user_id (conv w3) = user_id (conv w)"
    "cooldown_time (conv w3) = cooldown_time (conv w)"
    "cooldown_state (conv w3) = cooldown_state (conv w)"
    unfolding w3 by (simp_all add: loop_fields loop_entry_fields)
  have w': "w' = snd (after_loop E options (Some res) n w3)" using al by simp
  have hist: "history (conv w') = history (conv w) @ [e]"
    unfolding w' by (simp add: after_loop_success_conv [OF ok e] f3)
  have cs: "cooldown_state (conv w') =
             (if user_id (conv w) \<in> set (owner E) then cooldown_state (conv w)
              else Some \<lparr>startedAt = now E AtCooldown,
                         expiresIn = cooldownTime (conv w) (subscriptionType E) (model E)\<rparr>)"
    unfolding w' by (simp add: after_loop_success_conv [OF ok e] f3 cooldownTime_cong [OF f3(3)])
  have "extends (\<lambda>(g, ev). g \<and> is_loop_event ev) (loop_entry w) w3"
    unfolding w3 by (rule loop_extends) simp
  then have "extends (\<lambda>(g, ev). \<not> is_CooldownUse ev) (loop_entry w) w3"
    by (rule extends_mono) (auto dest: loop_event_not_cooldown)
  moreover have "extends (\<lambda>(g, ev). \<not> is_CooldownUse ev) w (loop_entry w)"
    by (rule extends_mono [OF loop_entry_extends]) auto
  ultimately have "extends (\<lambda>(g, ev). \<not> is_CooldownUse ev) w w3"
    by (blast intro: extends_trans)
  then obtain xs where xs: "events w3 = events w @ xs"
    "list_all (\<lambda>(g, ev). \<not> is_CooldownUse ev) xs"
    by (auto simp add: extends_iff)
  have nc: "list_all (\<lambda>ev. \<not> is_CooldownUse ev) (map snd xs)"
    using xs(2) by (auto simp add: list_all_iff)
  define pre where "pre = map snd xs @ (if timer (conv w3) \<noteq> None then [ClearTimeout] else [])
              @ [ResetTimerArmed (max (int (now E AtUpdated) + int (ttl (conv w3)) - int (now E AtResetTime)) 0),
                 ModerationCheck (msg_text (result_output res))]"
  have pre_nc: "list_all (\<lambda>ev. \<not> is_CooldownUse ev) pre"
    using nc by (simp add: pre_def)
  have io: "i_output r = result_output res" "i_input r = result_input res"
    using r by simp_all
  have ct: "cooldownTime (conv w3) (subscriptionType E) (model E)
              = cooldownTime (conv w) (subscriptionType E) (model E)"
    by (rule cooldownTime_cong [OF f3(3)])
  have ev: "map snd (new_events w w') =
             pre @ [HistoryPush e,
                    BroadcastEval (user_id (conv w)) (broadcast_payload (history (conv w) @ [e])),
                    UpdateConversation (stripped_history (buffer_toString E) (history (conv w) @ [e]))]
                 @ (if dev E then []
                    else [UpdateInteraction
                            \<lparr>db_id = msg_id (i_output r), db_input = i_input r,
                             db_output = responseMessageToDatabase (buffer_toString E) (i_output r)\<rparr>
                            (model_id (model E)) (tone_id E)])
                 @ (if user_id (conv w) \<in> set (owner E) then []
                    else [CooldownUse (cooldownTime (conv w) (subscriptionType E) (model E))])"
    unfolding w' new_events_def after_loop_success_events [OF ok e] xs(1) io f3(1-3) ct pre_def
    by (simp add: comp_def)
  from ev pre_nc hist ok(3) cs show ?thesis by blast
qed


lemma generate_succeeds:
  assumes "active (conv w)" and "\<not> generating (conv w)" and "transport E 0 = Inr res"
    and "check_result E = Inr m" and "broadcast_result E = None"
    and "updateConversation_result E = None" and "dev E \<or> updateInteraction_result E = None"
  shows "fst (generate E options w) =
           Inr \<lparr>i_input = result_input res, i_output = result_output res, moderation = m,
                trigger = Some (opt_trigger options), reply = None, time = now E AtResult, tries = 0\<rparr>"
  using assms
  by (auto simp add: generate_unfold generate_loop.simps after_loop_def pushToHistory_def Let_def)

lemma sample_run:
  "generate (sample_env succeeding) sample_options sample_world =
     (Inr sample_generated, snd (generate (sample_env succeeding) sample_options sample_world))"
proof -
  have "fst (generate (sample_env succeeding) sample_options sample_world) = Inr sample_generated"
    using generate_succeeds [of sample_world "sample_env succeeding" sample_result None sample_options]
    by (simp add: sample_env_def sample_world_def new_Conversation_def succeeding_def
        sample_generated_def sample_options_def)
  then show ?thesis by (simp add: prod_eq_iff)
qed

text \<open>
  C6. In a successful call the interaction is pushed to the history, the history is
  broadcast, and the stripped history, which holds the new interaction, is handed to the
  database and that call resolves; no cool-down is armed before that, and the only events
  that follow are the audit entry (outside development mode) and the arming of the
  cool-down (for a user who is not an owner).
\<close>

theorem persist_before_cooldown:
  assumes "generate E options w = (Inr r, w')"
    and "e = \<lparr>i_input = i_input r, i_output = i_output r, moderation = moderation r,
              trigger = trigger r, reply = reply r, time = time r\<rparr>"
  shows "(\<exists>pre. map snd (new_events w w') =
             pre @ [HistoryPush e,
                    BroadcastEval (user_id (conv w)) (broadcast_payload (history (conv w) @ [e])),
                    UpdateConversation (stripped_history (buffer_toString E) (history (conv w) @ [e]))]
                 @ (if dev E then []
                    else [UpdateInteraction
                            \<lparr>db_id = msg_id (i_output r), db_input = i_input r,
                             db_output = responseMessageToDatabase (buffer_toString E) (i_output r)\<rparr>
                            (model_id (model E)) (tone_id E)])
                 @ (if user_id (conv w) \<in> set (owner E) then []
                    else [CooldownUse (cooldownTime (conv w) (subscriptionType E) (model E))])
           \<and> list_all (\<lambda>ev. \<not> is_CooldownUse ev) pre)
       \<and> history (conv w') = history (conv w) @ [e]
       \<and> updateConversation_result E = None"
  using successful_call [OF assms] by blast

theorem persist_before_cooldown_witness:
  "(\<exists>pre. map snd (new_events sample_world
                     (snd (generate (sample_env succeeding) sample_options sample_world))) =
       pre @ [HistoryPush sample_interaction,
              BroadcastEval ''u1'' (broadcast_payload [sample_interaction]),
              UpdateConversation (stripped_history sample_toString [sample_interaction]),
              UpdateInteraction
                \<lparr>db_id = ''m1'', db_input = result_input sample_result,
                 db_output = responseMessageToDatabase sample_toString (result_output sample_result)\<rparr>
                ''chatgpt'' ''neutral'',
              CooldownUse (cooldownTime (conv sample_world) Voter sample_model)]
     \<and> list_all (\<lambda>ev. \<not> is_CooldownUse ev) pre)
   \<and> history (conv (snd (generate (sample_env succeeding) sample_options sample_world))) =
       [sample_interaction]"
  using persist_before_cooldown [OF sample_run, of sample_interaction]
  by (simp add: sample_interaction_def sample_generated_def sample_env_def sample_world_def
      new_Conversation_def sample_model_def sample_result_def)

section \<open>The duration of the cool-down\<close>

lemma override_applies_iff:
  "override_applies m \<longleftrightarrow>
     (\<exists>t. override_time m = Some t \<and> t \<noteq> 0) \<and> model_restricted m = Some PremiumOnly"
  by (auto simp add: override_applies_def override_time_def split: option.splits)

lemma cooldownTime_override:
  assumes "override_time m = Some t" and "t \<noteq> 0" and "model_restricted m = Some PremiumOnly"
  shows "cooldownTime c sub m = round (fmul (fmul t 1) (toneModifier m))"
  using assms
  by (auto simp add: cooldownTime_def baseDuration_def baseModifier_def override_applies_def
      override_time_def split: option.splits)

lemma cooldownTime_standard:
  assumes "\<not> override_applies m"
  shows "cooldownTime c sub m =
           round (fmul (fmul (cooldown_time c) (CONVERSATION_COOLDOWN_MODIFIER sub)) (toneModifier m))"
  using assms by (simp add: cooldownTime_def baseDuration_def baseModifier_def)

text \<open>Evaluating \<open>double_round\<close>: the exponent is the one that brackets the number.\<close>

lemma exponent_eqI:
  assumes "2 powi e \<le> \<bar>x\<bar>" and "\<bar>x\<bar> < 2 powi (e + 1)"
  shows "exponent x = e"
proof -
  have p: "(0::real) < 2 powi e" by (simp add: zero_less_power_int)
  have pos: "0 < \<bar>x\<bar>" by (rule less_le_trans [OF p assms(1)])
  have a: "2 powr (of_int e) = (2::real) powi e"
    by (simp add: powr_real_of_int')
  have b: "2 powr (of_int e + 1) = (2::real) powi (e + 1)"
    using powr_real_of_int' [of 2 "e + 1"] by simp
  have "2 powr (of_int e) \<le> \<bar>x\<bar>" "\<bar>x\<bar> < 2 powr (of_int e + 1)"
    unfolding a b using assms by simp_all
  then show ?thesis
    unfolding exponent_def using pos by (simp add: floor_log_eq_powr_iff)
qed

lemma double_round_eval:
  assumes "2 powi e \<le> \<bar>x\<bar>" and "\<bar>x\<bar> < 2 powi (e + 1)" and "- 1022 \<le> e"
  shows "double_round x = of_int (round_half_even (x / 2 powi (e - 52))) * 2 powi (e - 52)"
proof -
  have p: "(0::real) < 2 powi e" by (simp add: zero_less_power_int)
  have "0 < \<bar>x\<bar>" by (rule less_le_trans [OF p assms(1)])
  then have "x \<noteq> 0" by simp
  then show ?thesis
    using exponent_eqI [OF assms(1,2)] assms(3) by (simp add: double_round_def max_def)
qed

lemma double_half: "double_round (1 / 2) = 1 / 2"
  by (subst double_round_eval [where e = "- 1"])
     (simp_all add: round_half_even_def power_int_minus)

lemma double_30000: "double_round 30000 = 30000"
  by (subst double_round_eval [where e = 14])
     (simp_all add: round_half_even_def power_int_minus)

lemma double_45000: "double_round 45000 = 45000"
  by (subst double_round_eval [where e = 15])
     (simp_all add: round_half_even_def power_int_minus)

lemma double_55000: "double_round 55000 = 55000"
  by (subst double_round_eval [where e = 15])
     (simp_all add: round_half_even_def power_int_minus)

lemma double_9_100: "double_round (9 / 100) = 6485183463413514 / 2 ^ 56"
  by (subst double_round_eval [where e = "- 4"])
     (simp_all add: round_half_even_def power_int_minus)

lemma double_1005_1000: "double_round (201 / 200) = 4526117625507348 / 2 ^ 52"
  by (subst double_round_eval [where e = 0])
     (simp_all add: round_half_even_def power_int_minus)

lemma fmul_110000_9_100: "fmul 110000 (double_round (9 / 100)) = 9900"
  unfolding double_9_100 fmul_def
  by (subst double_round_eval [where e = 13])
     (simp_all add: round_half_even_def power_int_minus)

text \<open>
  The two products are those of doubles: for a premium user and a model whose multiplier
  is the literal 1.005, the cool-down is 9949 ms, where the exact product
  \<open>110000 * 0.09 * 1.005 = 9949.5\<close> would round to 9950.
\<close>

lemma cooldown_of_doubles:
  assumes "cooldown_time c = 110000"
  shows "cooldownTime c UserPremium tuned_model = 9949"
proof -
  have "round (fmul (fmul 110000 (double_round (9 / 100))) (4526117625507348 / 2 ^ 52)) = 9949"
    apply (simp only: fmul_110000_9_100)
    apply (simp only: fmul_def)
    apply (subst double_round_eval [where e = 13])
       apply (simp_all add: round_half_even_def power_int_minus round_def)
    done
  then show ?thesis
    using assms
    by (simp add: cooldownTime_def baseDuration_def baseModifier_def toneModifier_def
        override_applies_def tuned_model_def double_1005_1000)
qed

text \<open>
  C8, as the code has it. A successful call of a user who is an owner arms no cool-down
  and leaves the cool-down as it was. For any other user it arms the cool-down once, at the
  end, for the duration \<open>d\<close>, which is, as long as no product overflows, the product of
  doubles \<open>(base * modifier) * multiplier\<close> rounded to the nearest integer: when the model
  configures a non-zero duration and is restricted to premium users, the base is that
  duration and the modifier is 1; otherwise the base is the duration of the conversation's
  cool-down and the modifier is that of the subscription type. The multiplier is
  \<^verbatim>\<open>model.options.cooldown.multiplier\<close> when set and non-zero, and 1 otherwise.
\<close>

theorem cooldown_armed:
  assumes "generate E options w = (Inr r, w')"
    and "d = cooldownTime (conv w) (subscriptionType E) (model E)"
    and "cooldown_finite (conv w) (subscriptionType E) (model E)"
  shows "(user_id (conv w) \<in> set (owner E) \<longrightarrow>
            cooldown_state (conv w') = cooldown_state (conv w)
          \<and> filter is_CooldownUse (map snd (new_events w w')) = [])
       \<and> (user_id (conv w) \<notin> set (owner E) \<longrightarrow>
            cooldown_state (conv w') = Some \<lparr>startedAt = now E AtCooldown, expiresIn = d\<rparr>
          \<and> filter is_CooldownUse (map snd (new_events w w')) = [CooldownUse d])
       \<and> (\<forall>t. override_time (model E) = Some t \<and> t \<noteq> 0
                \<and> model_restricted (model E) = Some PremiumOnly
              \<longrightarrow> d = round (fmul (fmul t 1) (toneModifier (model E))))
       \<and> (\<not> ((\<exists>t. override_time (model E) = Some t \<and> t \<noteq> 0)
               \<and> model_restricted (model E) = Some PremiumOnly)
              \<longrightarrow> d = round (fmul (fmul (cooldown_time (conv w))
                                       (CONVERSATION_COOLDOWN_MODIFIER (subscriptionType E)))
                                 (toneModifier (model E))))"
proof -
  define e where "e = \<lparr>i_input = i_input r, i_output = i_output r, moderation = moderation r,
              trigger = trigger r, reply = reply r, time = time r\<rparr>"
  from successful_call [OF assms(1) e_def] obtain pre where
    ev: "map snd (new_events w w') =
             pre @ [HistoryPush e,
                    BroadcastEval (user_id (conv w)) (broadcast_payload (history (conv w) @ [e])),
                    UpdateConversation (stripped_history (buffer_toString E) (history (conv w) @ [e]))]
                 @ (if dev E then []
                    else [UpdateInteraction
                            \<lparr>db_id = msg_id (i_output r), db_input = i_input r,
                             db_output = responseMessageToDatabase (buffer_toString E) (i_output r)\<rparr>
                            (model_id (model E)) (tone_id E)])
                 @ (if user_id (conv w) \<in> set (owner E) then []
                    else [CooldownUse (cooldownTime (conv w) (subscriptionType E) (model E))])"
    and pre: "list_all (\<lambda>ev. \<not> is_CooldownUse ev) pre"
    and cs: "cooldown_state (conv w') =
             (if user_id (conv w) \<in> set (owner E) then cooldown_state (conv w)
              else Some \<lparr>startedAt = now E AtCooldown,
                         expiresIn = cooldownTime (conv w) (subscriptionType E) (model E)\<rparr>)"
    by blast
  have fp: "filter is_CooldownUse pre = []"
    using pre by (simp add: list_all_iff)
  have 1: "user_id (conv w) \<in> set (owner E) \<longrightarrow>
            cooldown_state (conv w') = cooldown_state (conv w)
          \<and> filter is_CooldownUse (map snd (new_events w w')) = []"
    unfolding ev using cs fp by simp
  have 2: "user_id (conv w) \<notin> set (owner E) \<longrightarrow>
            cooldown_state (conv w') = Some \<lparr>startedAt = now E AtCooldown, expiresIn = d\<rparr>
          \<and> filter is_CooldownUse (map snd (new_events w w')) = [CooldownUse d]"
    unfolding ev using cs fp assms(2) by simp
  have 3: "\<forall>t. override_time (model E) = Some t \<and> t \<noteq> 0
                \<and> model_restricted (model E) = Some PremiumOnly
              \<longrightarrow> d = round (fmul (fmul t 1) (toneModifier (model E)))"
    unfolding assms(2) by (auto intro: cooldownTime_override)
  have 4: "\<not> ((\<exists>t. override_time (model E) = Some t \<and> t \<noteq> 0)
               \<and> model_restricted (model E) = Some PremiumOnly)
              \<longrightarrow> d = round (fmul (fmul (cooldown_time (conv w))
                                       (CONVERSATION_COOLDOWN_MODIFIER (subscriptionType E)))
                                 (toneModifier (model E)))"
    unfolding assms(2) override_applies_iff [symmetric] by (auto intro: cooldownTime_standard)
  from 1 2 3 4 show ?thesis by blast
qed

lemma sample_run_premium:
  "generate ((sample_env succeeding)\<lparr>model := premium_model\<rparr>) sample_options sample_world =
     (Inr sample_generated,
      snd (generate ((sample_env succeeding)\<lparr>model := premium_model\<rparr>) sample_options sample_world))"
proof -
  have "fst (generate ((sample_env succeeding)\<lparr>model := premium_model\<rparr>) sample_options sample_world)
          = Inr sample_generated"
    using generate_succeeds [of sample_world "(sample_env succeeding)\<lparr>model := premium_model\<rparr>"
        sample_result None sample_options]
    by (simp add: sample_env_def sample_world_def new_Conversation_def succeeding_def
        sample_generated_def sample_options_def)
  then show ?thesis by (simp add: prod_eq_iff)
qed

theorem cooldown_armed_witness:
  "cooldown_finite (conv sample_world) Voter premium_model
   \<and> cooldown_state (conv (snd (generate ((sample_env succeeding)\<lparr>model := premium_model\<rparr>)
                                  sample_options sample_world))) =
       Some \<lparr>startedAt = 1010, expiresIn = 45000\<rparr>
   \<and> filter is_CooldownUse
        (map snd (new_events sample_world
           (snd (generate ((sample_env succeeding)\<lparr>model := premium_model\<rparr>)
                   sample_options sample_world)))) = [CooldownUse 45000]"
proof -
  have p: "fmul 30000 1 = 30000" "fmul 30000 (3 / 2) = 45000"
    by (simp_all add: fmul_def double_30000 double_45000)
  have d: "cooldownTime c Voter premium_model = 45000" for c
    by (simp add: cooldownTime_def baseDuration_def baseModifier_def toneModifier_def
        override_applies_def premium_model_def p)
  have f: "cooldown_finite c Voter premium_model" for c
    by (simp add: cooldown_finite_def finite_number_def baseDuration_def baseModifier_def
        toneModifier_def override_applies_def premium_model_def p)
  show ?thesis
    using cooldown_armed [OF sample_run_premium, of 45000] f
    by (simp add: d sample_env_def sample_world_def new_Conversation_def)
qed

lemma sample_run_override:
  "generate ((sample_env succeeding)\<lparr>model := override_model\<rparr>) sample_options sample_world =
     (Inr sample_generated,
      snd (generate ((sample_env succeeding)\<lparr>model := override_model\<rparr>) sample_options sample_world))"
proof -
  have "fst (generate ((sample_env succeeding)\<lparr>model := override_model\<rparr>) sample_options sample_world)
          = Inr sample_generated"
    using generate_succeeds [of sample_world "(sample_env succeeding)\<lparr>model := override_model\<rparr>"
        sample_result None sample_options]
    by (simp add: sample_env_def sample_world_def new_Conversation_def succeeding_def
        sample_generated_def sample_options_def)
  then show ?thesis by (simp add: prod_eq_iff)
qed

text \<open>
  The claim C8 as stated fails for a model that configures a duration of 30000 ms without
  being restricted to premium users: for a voter the cool-down armed lasts 55000 ms, half of
  the 110000 ms of the conversation's cool-down.
\<close>

theorem cooldown_override_counterexample:
  "override_time override_model = Some 30000
   \<and> cooldown_state (conv (snd (generate ((sample_env succeeding)\<lparr>model := override_model\<rparr>)
                                  sample_options sample_world))) =
       Some \<lparr>startedAt = 1010, expiresIn = 55000\<rparr>"
proof -
  have p: "fmul 110000 (double_round (1 / 2)) = 55000" "fmul 55000 1 = 55000"
    by (simp_all add: fmul_def double_half double_55000)
  have d: "cooldownTime c Voter override_model = 55000" if "cooldown_time c = 110000" for c
    using that
    by (simp add: cooldownTime_def baseDuration_def baseModifier_def toneModifier_def
        override_applies_def override_model_def p)
  have "cooldown_state (conv (snd (generate ((sample_env succeeding)\<lparr>model := override_model\<rparr>)
                                  sample_options sample_world))) =
          (if user_id (conv sample_world) \<in> set (owner ((sample_env succeeding)\<lparr>model := override_model\<rparr>))
           then cooldown_state (conv sample_world)
           else Some \<lparr>startedAt = now ((sample_env succeeding)\<lparr>model := override_model\<rparr>) AtCooldown,
                      expiresIn = cooldownTime (conv sample_world)
                        (subscriptionType ((sample_env succeeding)\<lparr>model := override_model\<rparr>))
                        (model ((sample_env succeeding)\<lparr>model := override_model\<rparr>))\<rparr>)"
    using successful_call [OF sample_run_override refl] by blast
  then have "cooldown_state (conv (snd (generate ((sample_env succeeding)\<lparr>model := override_model\<rparr>)
                                  sample_options sample_world))) =
       Some \<lparr>startedAt = 1010, expiresIn = 55000\<rparr>"
    by (simp add: d sample_env_def sample_world_def new_Conversation_def
        CONVERSATION_DEFAULT_COOLDOWN_def)
  moreover have "override_time override_model = Some 30000"
    by (simp add: override_time_def override_model_def)
  ultimately show ?thesis by simp
qed

section \<open>The history in the database and on the other clusters\<close>

lemma database_roundtrip:
  assumes "\<forall>b. load (toStr b) = b"
  shows "databaseToResponseMessage load (responseMessageToDatabase toStr message) = message"
proof -
  have "map ((\<lambda>i. \<lparr>image_rest = image_rest i, data = load (data i)\<rparr>)
               \<circ> (\<lambda>i. \<lparr>image_rest = image_rest i, data = toStr (data i)\<rparr>)) imgs = imgs"
    for imgs :: "'a ChatImage list"
    using assms by (induction imgs) simp_all
  then show ?thesis
    by (cases "msg_images message")
       (simp_all add: databaseToResponseMessage_def responseMessageToDatabase_def)
qed

lemma byte_of_char: "of_nat (unat x mod 256) = (x :: 8 word)"
proof -
  have "unat x < 256" using unsigned_less [of x] by simp
  then show ?thesis by simp
qed

lemma sample_load_toString: "sample_load (sample_toString b) = b"
  by (induction b) (simp_all add: sample_load_def sample_toString_def byte_of_char)

text \<open>
  C7. An entry of the stripped history is made of the id of the output, the input and the
  output alone: the type \<open>DatabaseEntry\<close> has no other field, and the
  stripped history is the same whatever the moderation verdict, the trigger, the reply and
  the time of the interactions are. When the encoding of the image buffers is reversible,
  loading the stripped history gives back the interactions with their inputs and outputs
  as they were, and with no moderation verdict, trigger or reply.
\<close>

theorem history_roundtrip:
  assumes "\<forall>b. load (toStr b) = b"
  shows "stripped_history toStr
           (map (\<lambda>e. e\<lparr>moderation := md e, trigger := tg e, reply := rp e, time := tm e\<rparr>) h)
           = stripped_history toStr h
       \<and> map db_id (stripped_history toStr h) = map (\<lambda>e. msg_id (i_output e)) h
       \<and> loadFromDatabase_entries load t (stripped_history toStr h) =
           map (\<lambda>e. \<lparr>i_input = i_input e, i_output = i_output e, moderation = None,
                      trigger = None, reply = None, time = t\<rparr>) h"
  by (simp add: stripped_history_def loadFromDatabase_entries_def comp_def
      database_roundtrip [OF assms])

theorem history_roundtrip_witness:
  "loadFromDatabase_entries sample_load 2000 (stripped_history sample_toString [sample_interaction]) =
     [\<lparr>i_input = result_input sample_result, i_output = result_output sample_result,
       moderation = None, trigger = None, reply = None, time = 2000\<rparr>]"
proof -
  have "\<forall>b. sample_load (sample_toString b) = b"
    by (simp add: sample_load_toString)
  from history_roundtrip [OF this, where h = "[sample_interaction]" and t = 2000]
  show ?thesis by (simp add: sample_interaction_def)
qed

text \<open>
  C10. \<^verbatim>\<open>pushToHistory\<close> appends the entry, when there is one, to the local history and
  changes nothing else of the conversation; the payload it broadcasts has one entry for
  each entry of the local history, equal to it but for \<^verbatim>\<open>trigger\<close> and \<^verbatim>\<open>reply\<close>, which
  are \<^verbatim>\<open>null\<close>: the moderation verdict, the time, the input and the output are sent as
  they are.
\<close>

theorem broadcast_strips_handles:
  assumes "w' = snd (pushToHistory E entry w)"
    and "h = history (conv w) @ (case entry of Some e \<Rightarrow> [e] | None \<Rightarrow> [])"
  shows "conv w' = (conv w)\<lparr>history := h\<rparr>
       \<and> last (events w') = (generating (conv w), BroadcastEval (user_id (conv w)) (broadcast_payload h))
       \<and> length (broadcast_payload h) = length h
       \<and> (\<forall>i < length h.
             broadcast_payload h ! i = (h ! i)\<lparr>trigger := None, reply := None\<rparr>
           \<and> moderation (broadcast_payload h ! i) = moderation (h ! i)
           \<and> time (broadcast_payload h ! i) = time (h ! i)
           \<and> i_input (broadcast_payload h ! i) = i_input (h ! i)
           \<and> i_output (broadcast_payload h ! i) = i_output (h ! i)
           \<and> trigger (broadcast_payload h ! i) = None
           \<and> reply (broadcast_payload h ! i) = None)"
proof -
  have 1: "conv w' = (conv w)\<lparr>history := h\<rparr>
       \<and> last (events w') = (generating (conv w), BroadcastEval (user_id (conv w)) (broadcast_payload h))"
    using assms by (simp add: pushToHistory_def Let_def split: option.splits)
  have 2: "length (broadcast_payload h) = length h"
    by (simp add: broadcast_payload_def)
  have 3: "broadcast_payload h ! i = (h ! i)\<lparr>trigger := None, reply := None\<rparr>" if "i < length h" for i
    using that by (simp add: broadcast_payload_def)
  from 1 2 3 show ?thesis by simp
qed

theorem broadcast_strips_handles_witness:
  "conv (snd (pushToHistory (sample_env succeeding) (Some sample_interaction) sample_world)) =
     (conv sample_world)\<lparr>history := [sample_interaction]\<rparr>
   \<and> last (events (snd (pushToHistory (sample_env succeeding) (Some sample_interaction) sample_world))) =
       (False, BroadcastEval ''u1'' [sample_interaction\<lparr>trigger := None, reply := None\<rparr>])
   \<and> moderation (broadcast_payload [sample_interaction] ! 0) = moderation sample_interaction
   \<and> time (broadcast_payload [sample_interaction] ! 0) = 1000"
  using broadcast_strips_handles [of "snd (pushToHistory (sample_env succeeding) (Some sample_interaction) sample_world)"
      "sample_env succeeding" "Some sample_interaction" sample_world "[sample_interaction]"]
  by (simp add: sample_world_def new_Conversation_def broadcast_payload_def sample_interaction_def)

section \<open>The prompt of the summarizer\<close>

lemma butlast_take_prefix: "k < length xs \<Longrightarrow> take k (butlast xs) = take k xs"
  by (simp add: butlast_conv_take)

lemma summarizer_step:
  assumes "countTokens S (summarizer_messages S video subtitles ty) > 4000" and "subtitles \<noteq> []"
  shows "buildSummarizerPrompt S video subtitles ty =
           buildSummarizerPrompt S video (butlast subtitles) ty"
  using assms by (subst buildSummarizerPrompt.simps) simp

text \<open>
  C9, as the code has it. The builder keeps the longest prefix of the subtitles whose
  prompt counts at most 4000 tokens: while the prompt is over the budget it drops the last
  subtitle and checks again. It returns that prompt with its token count; when even the
  prompt without any subtitle is over the budget, it throws a \<open>Length\<close> generation error.
\<close>

theorem summarizer_truncation:
  "(case buildSummarizerPrompt S video subtitles ty of
      Inr p \<Rightarrow>
        (\<exists>k \<le> length subtitles.
            messages p = summarizer_messages S video (take k subtitles) ty
          \<and> tokens p = countTokens S (messages p) \<and> tokens p \<le> 4000
          \<and> (\<forall>j. k < j \<and> j \<le> length subtitles
                 \<longrightarrow> countTokens S (summarizer_messages S video (take j subtitles) ty) > 4000))
    | Inl e \<Rightarrow>
        e = GPTGenerationError Length None
      \<and> (\<forall>j \<le> length subtitles.
             countTokens S (summarizer_messages S video (take j subtitles) ty) > 4000))"
proof (induction S video subtitles ty rule: buildSummarizerPrompt.induct)
  case (1 S video subtitles ty)
  let ?over = "\<lambda>subs. countTokens S (summarizer_messages S video subs ty) > 4000"
  show ?case
  proof (cases "?over subtitles")
    case False
    then have "buildSummarizerPrompt S video subtitles ty =
                 Inr \<lparr>messages = summarizer_messages S video subtitles ty,
                      tokens = countTokens S (summarizer_messages S video subtitles ty)\<rparr>"
      by (subst buildSummarizerPrompt.simps) simp
    with False show ?thesis
      by (auto intro!: exI [of _ "length subtitles"])
  next
    case over: True
    show ?thesis
    proof (cases "subtitles = []")
      case True
      with over have "buildSummarizerPrompt S video subtitles ty = Inl (GPTGenerationError Length None)"
        by (subst buildSummarizerPrompt.simps) simp
      with over True show ?thesis by simp
    next
      case False
      have step: "buildSummarizerPrompt S video subtitles ty =
                    buildSummarizerPrompt S video (butlast subtitles) ty"
        using over False by (rule summarizer_step)
      have len: "length (butlast subtitles) = length subtitles - 1" by simp
      have pre: "take j (butlast subtitles) = take j subtitles" if "j < length subtitles" for j
        using that by (rule butlast_take_prefix)
      have top: "?over (take (length subtitles) subtitles)" using over by simp
      have IH: "case buildSummarizerPrompt S video (butlast subtitles) ty of
          Inr p \<Rightarrow>
            (\<exists>k \<le> length (butlast subtitles).
                messages p = summarizer_messages S video (take k (butlast subtitles)) ty
              \<and> tokens p = countTokens S (messages p) \<and> tokens p \<le> 4000
              \<and> (\<forall>j. k < j \<and> j \<le> length (butlast subtitles)
                     \<longrightarrow> ?over (take j (butlast subtitles))))
        | Inl e \<Rightarrow>
            e = GPTGenerationError Length None
          \<and> (\<forall>j \<le> length (butlast subtitles). ?over (take j (butlast subtitles)))"
        using "1.IH" over False by simp
      show ?thesis
      proof (cases "buildSummarizerPrompt S video (butlast subtitles) ty")
        case (Inl e)
        with IH have e: "e = GPTGenerationError Length None"
          and all: "\<forall>j \<le> length (butlast subtitles). ?over (take j (butlast subtitles))"
          by simp_all
        have "?over (take j subtitles)" if "j \<le> length subtitles" for j
        proof (cases "j = length subtitles")
          case True
          then show ?thesis using top by simp
        next
          case False
          with that have j: "j < length subtitles" by simp
          then have "?over (take j (butlast subtitles))" using all len by simp
          then show ?thesis using pre [OF j] by simp
        qed
        with e Inl show ?thesis unfolding step by simp
      next
        case (Inr p)
        with IH obtain k where k: "k \<le> length (butlast subtitles)"
          "messages p = summarizer_messages S video (take k (butlast subtitles)) ty"
          "tokens p = countTokens S (messages p)" "tokens p \<le> 4000"
          "\<forall>j. k < j \<and> j \<le> length (butlast subtitles) \<longrightarrow> ?over (take j (butlast subtitles))"
          by auto
        from k(1) False have kl: "k < length subtitles"
          by (simp add: len) (metis Suc_pred length_greater_0_conv less_Suc_eq_le)
        have "?over (take j subtitles)" if "k < j" "j \<le> length subtitles" for j
        proof (cases "j = length subtitles")
          case True
          then show ?thesis using top by simp
        next
          case False
          with that have j: "j < length subtitles" by simp
          then have "?over (take j (butlast subtitles))" using k(5) that(1) len by simp
          then show ?thesis using pre [OF j] by simp
        qed
        with k kl Inr show ?thesis
          unfolding step
          by (auto intro!: exI [of _ k] simp add: pre [OF kl])
      qed
    qed
  qed
qed

theorem summarizer_truncation_witness:
  "(case buildSummarizerPrompt sample_summarizer sample_video [oldest_subtitle, newest_subtitle]
           sample_type of
      Inr p \<Rightarrow>
        (\<exists>k \<le> length [oldest_subtitle, newest_subtitle].
            messages p = summarizer_messages sample_summarizer sample_video
                           (take k [oldest_subtitle, newest_subtitle]) sample_type
          \<and> tokens p = countTokens sample_summarizer (messages p) \<and> tokens p \<le> 4000
          \<and> (\<forall>j. k < j \<and> j \<le> length [oldest_subtitle, newest_subtitle]
                 \<longrightarrow> countTokens sample_summarizer
                       (summarizer_messages sample_summarizer sample_video
                          (take j [oldest_subtitle, newest_subtitle]) sample_type) > 4000))
    | Inl e \<Rightarrow>
        e = GPTGenerationError Length None
      \<and> (\<forall>j \<le> length [oldest_subtitle, newest_subtitle].
             countTokens sample_summarizer
               (summarizer_messages sample_summarizer sample_video
                  (take j [oldest_subtitle, newest_subtitle]) sample_type) > 4000))"
  using summarizer_truncation [where S = sample_summarizer and video = sample_video
      and subtitles = "[oldest_subtitle, newest_subtitle]" and ty = sample_type]
  by simp

text \<open>
  The claim C9 as stated fails on two subtitles whose prompt is over the budget: the
  builder keeps the oldest subtitle and drops the newest, where dropping the oldest would
  have kept the newest.
\<close>

theorem summarizer_drops_newest_counterexample:
  "countTokens sample_summarizer
     (summarizer_messages sample_summarizer sample_video [oldest_subtitle, newest_subtitle]
        sample_type) > 4000
   \<and> buildSummarizerPrompt sample_summarizer sample_video [oldest_subtitle, newest_subtitle]
        sample_type
      = Inr \<lparr>messages = summarizer_messages sample_summarizer sample_video [oldest_subtitle]
                          sample_type,
             tokens = 2002\<rparr>
   \<and> buildSummarizerPrompt sample_summarizer sample_video [oldest_subtitle, newest_subtitle]
        sample_type
      \<noteq> buildSummarizerPrompt sample_summarizer sample_video [newest_subtitle] sample_type"
  by (simp add: buildSummarizerPrompt.simps summarizer_messages_def sample_summarizer_def
      sample_counter_def oldest_subtitle_def newest_subtitle_def)

end
